theory Spec2Isabelle
  imports
    Complex_Main
    "HOL-Library.Char_ord"
    "HOL-Library.List_Lexorder"
    "HOL-Library.Multiset"
    "HOL-Library.Word"
begin

section \<open>Python values, exceptions and list indexing\<close>

text \<open>
  The annotator of \<^verbatim>\<open>mapreader/annotate/annotator.py\<close> is a pandas DataFrame with extra
  attributes. Cells of the table hold Python objects; the ones the code looks at are
  \<^verbatim>\<open>None\<close>, the float NaN that pandas uses for a missing cell, booleans, integers, floats
  (modelled as exact rationals), strings and tuples.
\<close>

datatype py_error =
  IndexError | KeyError | ValueError | TypeError | AttributeError | FileNotFoundError |
  OSError

datatype val =
  VNone | VNaN | VBool bool | VInt int | VFloat rat | VStr string | VTuple "val list"

text \<open>Python truthiness, as \<^verbatim>\<open>True if x else False\<close> and \<^verbatim>\<open>if x[0]\<close> use it. NaN is a
  non-zero float, hence truthy.\<close>

fun truthy :: "val \<Rightarrow> bool" where
  "truthy VNone = False"
| "truthy VNaN = True"
| "truthy (VBool b) = b"
| "truthy (VInt i) = (i \<noteq> 0)"
| "truthy (VFloat r) = (r \<noteq> 0)"
| "truthy (VStr s) = (s \<noteq> [])"
| "truthy (VTuple vs) = (vs \<noteq> [])"

text \<open>pandas' \<^verbatim>\<open>isna\<close>: \<^verbatim>\<open>None\<close> and NaN are the missing values.\<close>

fun isna :: "val \<Rightarrow> bool" where
  "isna VNone = True"
| "isna VNaN = True"
| "isna v = False"

text \<open>\<^verbatim>\<open>xs[i]\<close> on a Python list: a negative index counts from the end, an index outside
  \<^verbatim>\<open>-len(xs) .. len(xs) - 1\<close> raises IndexError.\<close>

definition py_index :: "'a list \<Rightarrow> int \<Rightarrow> py_error + 'a" where
  "py_index xs i =
     (if 0 \<le> i \<and> i < int (length xs) then Inr (xs ! nat i)
      else if i < 0 \<and> - int (length xs) \<le> i then Inr (xs ! nat (int (length xs) + i))
      else Inl IndexError)"

section \<open>The table\<close>

text \<open>
  A DataFrame is its list of column names and its rows in order, each row the row key
  (the index label) with its cells by column name.
\<close>

type_synonym key = string
type_synonym row = "(string \<times> val) list"

record frame =
  columns :: "string list"
  rows :: "(key \<times> row) list"

text \<open>\<^verbatim>\<open>df.at[ix, col]\<close>: KeyError when the row key or the column is absent.\<close>

definition df_at :: "frame \<Rightarrow> key \<Rightarrow> string \<Rightarrow> py_error + val" where
  "df_at df ix col =
     (case map_of (rows df) ix of
        None \<Rightarrow> Inl KeyError
      | Some r \<Rightarrow> (case map_of r col of None \<Rightarrow> Inl KeyError | Some v \<Rightarrow> Inr v))"

section \<open>The annotator\<close>

text \<open>
  \<^verbatim>\<open>_buttons\<close> holds one button for each label (\<^verbatim>\<open>_setup_buttons\<close>), with the label as its
  description; the code sets the attributes \<^verbatim>\<open>disabled\<close> and \<^verbatim>\<open>icon\<close> of these buttons.
\<close>

record button =
  description :: string
  disabled :: bool
  icon :: string

text \<open>
  What is displayed and what is written to disk is kept as a log of events, newest
  first: the completion message, the table written by \<^verbatim>\<open>to_csv\<close> under a file name, the
  patch or the context of a row, the box below the image (the link to the map when the
  cell \<^verbatim>\<open>url\<close> is truthy, and the progress bar with its value and its maximum), and a
  traceback shown by the output widget.
\<close>

datatype event =
    ShowComplete
  | Saved string frame
  | ShowPatch key
  | ShowContext key
  | ShowBar "val option" int nat
  | ShowTraceback py_error

text \<open>
  The attributes of the annotator that the code below reads or writes. \<^verbatim>\<open>out\<close> tells
  whether the attribute \<^verbatim>\<open>self.out\<close>, the output widget, has been assigned: \<^verbatim>\<open>_annotate\<close>
  assigns it (line 750), \<^verbatim>\<open>__init__\<close> does not. \<^verbatim>\<open>annotations_file_attr\<close> is the attribute
  \<^verbatim>\<open>self.annotations_file\<close>.
\<close>

record annotator =
  table :: frame
  patch_paths_col :: string
  label_col :: string
  show_context :: bool
  auto_save :: bool
  annotate_context :: bool
  min_values :: "(string \<times> rat) list"
  max_values :: "(string \<times> rat) list"
  surrounding :: int
  queue :: "key list"
  current_index :: int
  previous_index :: int
  buttons :: "button list"
  out :: bool
  annotations_file_attr :: string
  events :: "event list"

text \<open>A call either raises, with the attributes as they were set up to that point, or
  returns.\<close>

datatype 'a outcome = Raised py_error | Returned 'a

section \<open>A small session\<close>

text \<open>Three patches of one parent, none labelled, two labels, and a queue over all of
  the patches, as \<^verbatim>\<open>__init__\<close> leaves it: \<^verbatim>\<open>current_index = -1\<close>, \<^verbatim>\<open>previous_index = 0\<close>
  (lines 316--317), no output widget yet.\<close>

definition ex_table :: frame where
  "ex_table =
     \<lparr>columns = [''image_path'', ''url'', ''label''],
      rows = [(''patch-0-0-#map.png#'', [(''image_path'', VStr ''p0.png''),
                 (''url'', VStr ''https://maps.test/1''), (''label'', VNone)]),
              (''patch-0-1-#map.png#'', [(''image_path'', VStr ''p1.png''),
                 (''url'', VStr ''https://maps.test/1''), (''label'', VNone)]),
              (''patch-1-0-#map.png#'', [(''image_path'', VStr ''p2.png''),
                 (''url'', VStr ''https://maps.test/1''), (''label'', VNone)])]\<rparr>"

definition ex_session :: annotator where
  "ex_session =
     \<lparr>table = ex_table, patch_paths_col = ''image_path'', label_col = ''label'',
      show_context = False, auto_save = True, annotate_context = False,
      min_values = [], max_values = [], surrounding = 1,
      queue = [''patch-0-1-#map.png#'', ''patch-1-0-#map.png#'', ''patch-0-0-#map.png#''],
      current_index = - 1, previous_index = 0,
      buttons = [\<lparr>description = ''railspace'', disabled = False, icon = []\<rparr>,
                 \<lparr>description = ''no'', disabled = False, icon = []\<rparr>],
      out = False, annotations_file_attr = ''annotations/rail_#kasra#-0.csv'',
      events = []\<rparr>"

section \<open>The queue of eligible rows\<close>

text \<open>A list comprehension whose element expressions may raise: the elements are
  evaluated left to right and the first exception ends the comprehension.\<close>

fun collect :: "('a \<Rightarrow> py_error + 'b) \<Rightarrow> 'a list \<Rightarrow> py_error + 'b list" where
  "collect f [] = Inr []"
| "collect f (x # xs) =
     (case f x of
        Inl e \<Rightarrow> Inl e
      | Inr y \<Rightarrow> (case collect f xs of Inl e \<Rightarrow> Inl e | Inr ys \<Rightarrow> Inr (y # ys)))"

text \<open>\<^verbatim>\<open>row[col]\<close> on a row of the table.\<close>

definition row_get :: "row \<Rightarrow> string \<Rightarrow> py_error + val" where
  "row_get r col = (case map_of r col of None \<Rightarrow> Inl KeyError | Some v \<Rightarrow> Inr v)"

text \<open>
  \<^verbatim>\<open>min_values\<close> and \<^verbatim>\<open>max_values\<close> map column names to floating point thresholds (the
  class docstring), kept in the order of the dictionary. \<^verbatim>\<open>row[col] >= min_value\<close> against
  a float: numbers compare by value, NaN compares false, any other cell raises TypeError.
\<close>

fun py_ge_float :: "val \<Rightarrow> rat \<Rightarrow> py_error + bool" where
  "py_ge_float (VInt i) m = Inr (of_int i \<ge> m)"
| "py_ge_float (VFloat x) m = Inr (x \<ge> m)"
| "py_ge_float (VBool b) m = Inr ((if b then 1 else 0) \<ge> m)"
| "py_ge_float VNaN m = Inr False"
| "py_ge_float v m = Inl TypeError"

fun py_le_float :: "val \<Rightarrow> rat \<Rightarrow> py_error + bool" where
  "py_le_float (VInt i) m = Inr (of_int i \<le> m)"
| "py_le_float (VFloat x) m = Inr (x \<le> m)"
| "py_le_float (VBool b) m = Inr ((if b then 1 else 0) \<le> m)"
| "py_le_float VNaN m = Inr False"
| "py_le_float v m = Inl TypeError"

definition row_ge :: "row \<Rightarrow> string \<times> rat \<Rightarrow> py_error + bool" where
  "row_ge r cm = (case row_get r (fst cm) of Inl e \<Rightarrow> Inl e | Inr v \<Rightarrow> py_ge_float v (snd cm))"

definition row_le :: "row \<Rightarrow> string \<times> rat \<Rightarrow> py_error + bool" where
  "row_le r cm = (case row_get r (fst cm) of Inl e \<Rightarrow> Inl e | Inr v \<Rightarrow> py_le_float v (snd cm))"

text \<open>
  \<^verbatim>\<open>check_eligibility\<close>, the inner function of \<^verbatim>\<open>get_queue\<close>. It reads the attribute
  \<^verbatim>\<open>row.label\<close>, that is the column named \<^verbatim>\<open>label\<close> (AttributeError without one), tests it
  with \<^verbatim>\<open>is not None\<close>, then builds the whole list of comparisons before \<^verbatim>\<open>all\<close>.
\<close>

definition check_eligibility ::
  "(string \<times> rat) list \<Rightarrow> (string \<times> rat) list \<Rightarrow> row \<Rightarrow> py_error + bool" where
  "check_eligibility mins maxs r =
     (case map_of r ''label'' of
        None \<Rightarrow> Inl AttributeError
      | Some l \<Rightarrow>
          if l \<noteq> VNone then Inr False
          else (case collect (row_ge r) mins of
                  Inl e \<Rightarrow> Inl e
                | Inr t1 \<Rightarrow>
                    (case collect (row_le r) maxs of
                       Inl e \<Rightarrow> Inl e
                     | Inr t2 \<Rightarrow> Inr (list_all (\<lambda>b. b) (t1 @ t2)))))"

text \<open>
  \<^verbatim>\<open>sample(frac=1)\<close> returns the rows in a random order. The random source is the list of
  draws \<open>ds\<close>: each draw picks one of the remaining rows.
\<close>

fun sample :: "nat list \<Rightarrow> 'a list \<Rightarrow> 'a list" where
  "sample ds [] = []"
| "sample [] xs = xs"
| "sample (d # ds) xs =
     (let i = d mod length xs in xs ! i # sample ds (take i xs @ drop (Suc i) xs))"

text \<open>\<^verbatim>\<open>get_queue()\<close> with \<^verbatim>\<open>as_type="list"\<close>: the index labels of the eligible rows,
  shuffled.\<close>

definition get_queue :: "nat list \<Rightarrow> annotator \<Rightarrow> py_error + key list" where
  "get_queue ds st =
     (case collect (\<lambda>kr. check_eligibility (min_values st) (max_values st) (snd kr))
             (rows (table st)) of
        Inl e \<Rightarrow> Inl e
      | Inr eligible \<Rightarrow>
          Inr (map fst (sample ds (map fst (filter snd (zip (rows (table st)) eligible))))))"

text \<open>The conditions of eligibility, read off a row; and the condition on the label as
  the specification words it (a null or empty label field).\<close>

definition eligible_row :: "annotator \<Rightarrow> row \<Rightarrow> bool" where
  "eligible_row st r =
     (map_of r (label_col st) = Some VNone \<and>
      list_all (\<lambda>cm. row_ge r cm = Inr True) (min_values st) \<and>
      list_all (\<lambda>cm. row_le r cm = Inr True) (max_values st))"

definition null_or_empty :: "val \<Rightarrow> bool" where
  "null_or_empty v = (isna v \<or> v = VStr [])"

definition ex_scores :: annotator where
  "ex_scores =
     ex_session
       \<lparr>table :=
          \<lparr>columns = [''image_path'', ''score'', ''label''],
           rows = [(''a'', [(''image_path'', VStr ''a.png''), (''score'', VFloat (4 / 10)),
                            (''label'', VNone)]),
                   (''b'', [(''image_path'', VStr ''b.png''), (''score'', VFloat (6 / 10)),
                            (''label'', VNone)])]\<rparr>,
        min_values := [(''score'', 1 / 2)], queue := []\<rparr>"

definition ex_empty_label :: annotator where
  "ex_empty_label =
     ex_session
       \<lparr>table :=
          \<lparr>columns = [''image_path'', ''label''],
           rows = [(''a'', [(''image_path'', VStr ''a.png''), (''label'', VStr [])])]\<rparr>,
        queue := []\<rparr>"

section \<open>Column operations and the resume merge\<close>

text \<open>Sequencing of steps that may raise.\<close>

definition and_then :: "py_error + 'a \<Rightarrow> ('a \<Rightarrow> py_error + 'b) \<Rightarrow> py_error + 'b" where
  "and_then x f = (case x of Inl e \<Rightarrow> Inl e | Inr v \<Rightarrow> f v)"

text \<open>The cell of a row; a cell that is not there reads as NaN, as pandas fills it.\<close>

definition cell :: "row \<Rightarrow> string \<Rightarrow> val" where
  "cell r col = (case map_of r col of None \<Rightarrow> VNaN | Some v \<Rightarrow> v)"

fun row_set :: "row \<Rightarrow> string \<Rightarrow> val \<Rightarrow> row" where
  "row_set [] col v = [(col, v)]"
| "row_set (cv # r) col v = (if fst cv = col then (col, v) # r else cv # row_set r col v)"

text \<open>\<^verbatim>\<open>df[col]\<close> (KeyError without the column), \<^verbatim>\<open>df[col] = values\<close> with one value per
  row, and \<^verbatim>\<open>df.drop(columns=[...])\<close> (KeyError when one of them is absent).\<close>

definition get_col :: "frame \<Rightarrow> string \<Rightarrow> py_error + val list" where
  "get_col df col =
     (if col \<in> set (columns df) then Inr (map (\<lambda>kr. cell (snd kr) col) (rows df))
      else Inl KeyError)"

definition set_col :: "frame \<Rightarrow> string \<Rightarrow> val list \<Rightarrow> frame" where
  "set_col df col vs =
     \<lparr>columns = (if col \<in> set (columns df) then columns df else columns df @ [col]),
      rows = map (\<lambda>krv. (fst (fst krv), row_set (snd (fst krv)) col (snd krv)))
               (zip (rows df) vs)\<rparr>"

definition drop_cols :: "frame \<Rightarrow> string list \<Rightarrow> py_error + frame" where
  "drop_cols df cols =
     (if list_all (\<lambda>c. c \<in> set (columns df)) cols
      then Inr \<lparr>columns = filter (\<lambda>c. c \<notin> set cols) (columns df),
                rows = map (\<lambda>kr. (fst kr, filter (\<lambda>cv. fst cv \<notin> set cols) (snd kr)))
                         (rows df)\<rparr>
      else Inl KeyError)"

text \<open>
  \<^verbatim>\<open>left.join(right, how="left", lsuffix="_x", rsuffix="_y")\<close>: a join on the row keys that
  keeps every row of \<^verbatim>\<open>left\<close> in order, once for each row of \<^verbatim>\<open>right\<close> with the same key
  and once, with NaN in the columns of \<^verbatim>\<open>right\<close>, when there is none. A column name that
  both tables have gets the suffix of its side.
\<close>

definition suffixed :: "string list \<Rightarrow> string \<Rightarrow> string \<Rightarrow> string" where
  "suffixed others sfx col = (if col \<in> set others then col @ sfx else col)"

definition rename_row :: "string list \<Rightarrow> string \<Rightarrow> row \<Rightarrow> row" where
  "rename_row others sfx r = map (\<lambda>cv. (suffixed others sfx (fst cv), snd cv)) r"

definition join_left :: "frame \<Rightarrow> frame \<Rightarrow> frame" where
  "join_left left right =
     \<lparr>columns = map (suffixed (columns right) ''_x'') (columns left) @
                map (suffixed (columns left) ''_y'') (columns right),
      rows = concat (map (\<lambda>kr.
               (case filter (\<lambda>kr'. fst kr' = fst kr) (rows right) of
                  [] \<Rightarrow> [(fst kr, rename_row (columns right) ''_x'' (snd kr) @
                                   map (\<lambda>c. (suffixed (columns left) ''_y'' c, VNaN))
                                     (columns right))]
                | ms \<Rightarrow> map (\<lambda>kr'. (fst kr, rename_row (columns right) ''_x'' (snd kr) @
                                             rename_row (columns left) ''_y'' (snd kr'))) ms))
               (rows left))\<rparr>"

text \<open>\<^verbatim>\<open>a.fillna(b)\<close> on two columns of one table: a missing cell of \<^verbatim>\<open>a\<close> takes the cell
  of \<^verbatim>\<open>b\<close> in the same row.\<close>

definition fillna :: "val list \<Rightarrow> val list \<Rightarrow> val list" where
  "fillna a b = map (\<lambda>yx. if isna (fst yx) then snd yx else fst yx) (zip a b)"

text \<open>
  Lines 229--236: a label column of integer dtype (a non-empty column of integers) holds
  indices into the labels, and each is replaced by \<^verbatim>\<open>labels[x]\<close>.
\<close>

fun is_int :: "val \<Rightarrow> bool" where
  "is_int (VInt i) = True"
| "is_int v = False"

definition dtype_is_int :: "val list \<Rightarrow> bool" where
  "dtype_is_int vs = (vs \<noteq> [] \<and> list_all is_int vs)"

fun legacy_label :: "string list \<Rightarrow> val \<Rightarrow> py_error + val" where
  "legacy_label labels (VInt i) =
     (case py_index labels i of Inl e \<Rightarrow> Inl e | Inr l \<Rightarrow> Inr (VStr l))"
| "legacy_label labels v = Inl TypeError"

definition convert_legacy :: "string list \<Rightarrow> string \<Rightarrow> frame \<Rightarrow> py_error + frame" where
  "convert_legacy labels lcol existing =
     and_then (get_col existing lcol) (\<lambda>old.
       if dtype_is_int old
       then and_then (collect (legacy_label labels) old) (\<lambda>new.
              Inr (set_col existing lcol new))
       else Inr existing)"

text \<open>
  Lines 218--258 of \<^verbatim>\<open>__init__\<close>, for a save file that exists and was read into
  \<^verbatim>\<open>existing\<close>: the check for the label column, the conversion of old indices, the join,
  and the columns \<^verbatim>\<open>label_col\<close>, \<^verbatim>\<open>changed\<close> and \<^verbatim>\<open>patch_paths_col\<close> rebuilt from the
  suffixed ones. The column read on line 241 is the literal \<^verbatim>\<open>"label_y"\<close>.
\<close>

definition resume_merge ::
  "string list \<Rightarrow> string \<Rightarrow> string \<Rightarrow> frame \<Rightarrow> frame \<Rightarrow> py_error + frame" where
  "resume_merge labels lcol pcol patch_df existing =
     (if lcol \<notin> set (columns existing) then Inl ValueError
      else
        and_then (convert_legacy labels lcol existing) (\<lambda>existing'.
        let j = join_left patch_df existing' in
        and_then (get_col j ''label_y'') (\<lambda>label_y.
        and_then (get_col j (lcol @ ''_x'')) (\<lambda>label_x.
        let j1 = set_col j lcol (fillna label_y label_x) in
        and_then (drop_cols j1 [lcol @ ''_x'', lcol @ ''_y'']) (\<lambda>j2.
        and_then (get_col j2 lcol) (\<lambda>merged.
        let j3 = set_col j2 ''changed'' (map (\<lambda>x. VBool (truthy x)) merged) in
        and_then (get_col j3 (pcol @ ''_x'')) (\<lambda>paths.
        let j4 = set_col j3 pcol paths in
        drop_cols j4 [pcol @ ''_x'', pcol @ ''_y''])))))))"

text \<open>A fresh table of two patches (after lines 183--186: the label column added as
  \<^verbatim>\<open>None\<close>, \<^verbatim>\<open>changed\<close> set to \<^verbatim>\<open>False\<close>) and saves of an earlier session.\<close>

definition fresh_df :: "string \<Rightarrow> frame" where
  "fresh_df lcol =
     \<lparr>columns = [''image_path'', lcol, ''changed''],
      rows = [(''a'', [(''image_path'', VStr ''a.png''), (lcol, VNone), (''changed'', VBool False)]),
              (''b'', [(''image_path'', VStr ''b.png''), (lcol, VNone), (''changed'', VBool False)])]\<rparr>"

definition saved_df :: "string \<Rightarrow> val \<Rightarrow> frame" where
  "saved_df lcol v =
     \<lparr>columns = [''image_path'', lcol],
      rows = [(''b'', [(''image_path'', VStr ''b.png''), (lcol, v)])]\<rparr>"

text \<open>An index that \<^verbatim>\<open>labels[x]\<close> accepts, and the label it resolves to.\<close>

fun index_ok :: "nat \<Rightarrow> val \<Rightarrow> bool" where
  "index_ok n (VInt i) = (- int n \<le> i \<and> i < int n)"
| "index_ok n v = False"

fun resolve :: "string list \<Rightarrow> val \<Rightarrow> val" where
  "resolve labels (VInt i) =
     VStr (labels ! nat (if i < 0 then int (length labels) + i else i))"
| "resolve labels v = v"

section \<open>The name of the save file\<close>

text \<open>
  Lines 194--208 of \<^verbatim>\<open>__init__\<close>. \<^verbatim>\<open>json.dumps\<close> and \<^verbatim>\<open>hashlib.md5(...).hexdigest()\<close> are
  library functions and stay parameters (\<open>dumps\<close>, \<open>md5hex\<close>); the thirty characters that
  \<^verbatim>\<open>random.choice\<close> draws for a missing user name are the input \<open>rnd\<close>. Python sorts
  strings by code point, which on UTF-8 bytes is the lexicographic order of the bytes.
\<close>

definition image_list :: "(string list \<Rightarrow> string) \<Rightarrow> string list \<Rightarrow> string" where
  "image_list dumps paths = dumps (sort paths)"

definition replace_spaces :: "string \<Rightarrow> string" where
  "replace_spaces s = map (\<lambda>c. if c = CHR '' '' then CHR ''_'' else c) s"

text \<open>\<^verbatim>\<open>if not username\<close> and \<^verbatim>\<open>if not task_name\<close>: \<^verbatim>\<open>None\<close> and the empty string are
  replaced.\<close>

definition or_default :: "string option \<Rightarrow> string \<Rightarrow> string" where
  "or_default given dflt =
     (case given of None \<Rightarrow> dflt | Some s \<Rightarrow> if s = [] then dflt else s)"

definition annotations_name ::
  "(string list \<Rightarrow> string) \<Rightarrow> (string \<Rightarrow> string) \<Rightarrow> string \<Rightarrow>
   string list \<Rightarrow> string option \<Rightarrow> string option \<Rightarrow> string" where
  "annotations_name dumps md5hex rnd paths username task_name =
     replace_spaces (or_default task_name ''task'') @ ''_#'' @ or_default username rnd @ ''#-'' @
       md5hex (image_list dumps paths) @ ''.csv''"

text \<open>\<^verbatim>\<open>os.path.join\<close> of two parts, on POSIX.\<close>

definition path_join :: "string \<Rightarrow> string \<Rightarrow> string" where
  "path_join a b =
     (if b \<noteq> [] \<and> hd b = CHR ''/'' then b
      else if a = [] \<or> last a = CHR ''/'' then a @ b
      else a @ ''/'' @ b)"

definition annotations_file ::
  "(string list \<Rightarrow> string) \<Rightarrow> (string \<Rightarrow> string) \<Rightarrow> string \<Rightarrow>
   string \<Rightarrow> string list \<Rightarrow> string option \<Rightarrow> string option \<Rightarrow> string" where
  "annotations_file dumps md5hex rnd annotations_dir paths username task_name =
     path_join annotations_dir (annotations_name dumps md5hex rnd paths username task_name)"


section \<open>The context of a patch\<close>

text \<open>
  An image is its size and its array of 8-bit samples (\<^verbatim>\<open>np.array(im)\<close>, flattened); the
  files are a map from paths to images, and \<^verbatim>\<open>Image.open\<close> raises on a path that is not
  there and, with AttributeError, on a cell that is not a path (it takes it for a file
  object). \<^verbatim>\<open>get_empty_square\<close> gives a white image of the asked size.
\<close>

record image =
  im_width :: int
  im_height :: int
  samples :: "8 word list"

datatype tile = Picture image | Blank int int

text \<open>
  Line 496, \<^verbatim>\<open>256 - (256 - im_array) * 0.4\<close> followed by \<^verbatim>\<open>astype(np.uint8)\<close>, on one
  sample. \<^verbatim>\<open>256 - im_array\<close> is computed in a wider integer type (NumPy below 2.0, as
  \<^verbatim>\<open>setup.py\<close> requires), the product and the difference in double precision, and the
  cast truncates. On the 256 possible samples the doubles truncate to the same integers
  as the exact rationals, which are used here.
\<close>

definition lighten :: "8 word \<Rightarrow> 8 word" where
  "lighten old = word_of_int \<lfloor>256 - (256 - of_nat (unat old)) * (4 / 10 :: rat)\<rfloor>"

text \<open>The transform the specification gives, \<^verbatim>\<open>256 - (256 - old) * 0.6\<close>.\<close>

definition lighten_spec :: "8 word \<Rightarrow> 8 word" where
  "lighten_spec old = word_of_int \<lfloor>256 - (256 - of_nat (unat old)) * (6 / 10 :: rat)\<rfloor>"

text \<open>\<^verbatim>\<open>get_path\<close>, the inner function of \<^verbatim>\<open>get_context\<close>. The flag \<^verbatim>\<open>dim\<close> arrives as
  \<^verbatim>\<open>True\<close> or, after \<^verbatim>\<open>array_split\<close> made strings of the pairs, as \<^verbatim>\<open>"True"\<close>: the test
  \<^verbatim>\<open>dim in [True, "True"]\<close> reads both as the boolean.\<close>

definition get_path ::
  "(string \<Rightarrow> image option) \<Rightarrow> bool \<Rightarrow> string \<Rightarrow> bool \<Rightarrow> py_error + image" where
  "get_path files annotate_ctx image_path dimmed =
     (case files image_path of
        None \<Rightarrow> Inl FileNotFoundError
      | Some im \<Rightarrow>
          Inr (if (if annotate_ctx then False else dimmed)
               then im\<lparr>samples := map lighten (samples im)\<rparr> else im))"

text \<open>The focal row: its origin, its size (from the column \<^verbatim>\<open>shape\<close> or, without that
  column, from the image file) and the rows of its parent, those with the same cell in
  \<^verbatim>\<open>parent_id\<close>. Coordinates and sizes are integers.\<close>

record geometry =
  g_min_x :: int
  g_min_y :: int
  g_height :: int
  g_width :: int
  parent_frame :: "(key \<times> row) list"

fun as_int :: "val \<Rightarrow> py_error + int" where
  "as_int (VInt i) = Inr i"
| "as_int v = Inl TypeError"

definition patch_size ::
  "(string \<Rightarrow> image option) \<Rightarrow> annotator \<Rightarrow> key \<Rightarrow> py_error + int \<times> int" where
  "patch_size files st ix =
     (case df_at (table st) ix ''shape'' of
        Inr (VTuple [h, w, c]) \<Rightarrow>
          and_then (as_int h) (\<lambda>height. and_then (as_int w) (\<lambda>width. Inr (height, width)))
      | Inr (VTuple vs) \<Rightarrow> Inl ValueError
      | Inr v \<Rightarrow> Inl TypeError
      | Inl KeyError \<Rightarrow>
          and_then (df_at (table st) ix (patch_paths_col st)) (\<lambda>im_path.
            case im_path of
              VStr p \<Rightarrow> (case files p of None \<Rightarrow> Inl FileNotFoundError
                         | Some im \<Rightarrow> Inr (im_height im, im_width im))
            | v \<Rightarrow> Inl AttributeError)
      | Inl e \<Rightarrow> Inl e)"

definition focal_geometry ::
  "(string \<Rightarrow> image option) \<Rightarrow> annotator \<Rightarrow> key \<Rightarrow> py_error + geometry" where
  "focal_geometry files st ix =
     and_then (and_then (df_at (table st) ix ''min_x'') as_int) (\<lambda>min_x.
     and_then (and_then (df_at (table st) ix ''min_y'') as_int) (\<lambda>min_y.
     and_then (patch_size files st ix) (\<lambda>hw.
     and_then (df_at (table st) ix ''parent_id'') (\<lambda>current_parent.
       Inr \<lparr>g_min_x = min_x, g_min_y = min_y, g_height = fst hw, g_width = snd hw,
            parent_frame = filter (\<lambda>kr. cell (snd kr) ''parent_id'' = current_parent)
                             (rows (table st))\<rparr>))))"

text \<open>
  \<^verbatim>\<open>items\<close>: for every pair of offsets, rows outer, the rows of the parent whose origin is
  the expected one. \<^verbatim>\<open>ids\<close> and \<^verbatim>\<open>image_paths\<close> take the one row of an item of length 1
  and \<^verbatim>\<open>None\<close> otherwise; the flag of a slot is \<^verbatim>\<open>id != ix\<close>.
\<close>

definition context_items :: "int \<Rightarrow> geometry \<Rightarrow> (key \<times> row) list list" where
  "context_items s g =
     map (\<lambda>yx. filter (\<lambda>kr. cell (snd kr) ''min_x'' = VInt (snd yx) \<and>
                             cell (snd kr) ''min_y'' = VInt (fst yx)) (parent_frame g))
       (List.product (map (\<lambda>d. g_min_y g + d * g_height g) [- s..s])
                     (map (\<lambda>d. g_min_x g + d * g_width g) [- s..s]))"

definition slot_id :: "(key \<times> row) list \<Rightarrow> key option" where
  "slot_id x = (case x of [m] \<Rightarrow> Some (fst m) | _ \<Rightarrow> None)"

definition slot_path :: "string list \<Rightarrow> (key \<times> row) list \<Rightarrow> py_error + val" where
  "slot_path cols x =
     (case x of
        [m] \<Rightarrow> if ''image_path'' \<in> set cols then Inr (cell (snd m) ''image_path'')
               else Inl KeyError
      | _ \<Rightarrow> Inr VNone)"

text \<open>One slot: \<^verbatim>\<open>get_path(x[0], dim=x[1]) if x[0] else get_empty_square((width, height))\<close>.\<close>

definition slot_tile ::
  "(string \<Rightarrow> image option) \<Rightarrow> annotator \<Rightarrow> geometry \<Rightarrow> val \<times> bool \<Rightarrow> py_error + tile" where
  "slot_tile files st g x =
     (if truthy (fst x)
      then (case fst x of
              VStr p \<Rightarrow> and_then (get_path files (annotate_context st) p (snd x))
                          (\<lambda>im. Inr (Picture im))
            | v \<Rightarrow> Inl AttributeError)
      else Inr (Blank (g_width g) (g_height g)))"

text \<open>\<^verbatim>\<open>get_context\<close> up to the images of the slots, in the order in which they are pasted
  (left to right, top to bottom); pasting and resizing are left to the imaging
  library.\<close>

definition get_context ::
  "(string \<Rightarrow> image option) \<Rightarrow> annotator \<Rightarrow> py_error + tile list" where
  "get_context files st =
     and_then (py_index (queue st) (current_index st)) (\<lambda>ix.
     and_then (focal_geometry files st ix) (\<lambda>g.
       let items = context_items (surrounding st) g;
           dims = map (\<lambda>x. slot_id x \<noteq> Some ix) items
       in and_then (collect (slot_path (columns (table st))) items) (\<lambda>image_paths.
            collect (slot_tile files st g) (zip image_paths dims))))"

text \<open>A parent cut into patches of 2 by 2 pixels: the focal patch at the origin, a
  neighbour to its right, and two rows that both claim the origin below it.\<close>

definition grey :: "8 word \<Rightarrow> image" where
  "grey v = \<lparr>im_width = 2, im_height = 2, samples = [v, v, v, v]\<rparr>"

definition ex_files :: "string \<Rightarrow> image option" where
  "ex_files path =
     (if path = ''f.png'' then Some (grey 0)
      else if path = ''r.png'' then Some (grey 6)
      else if path = ''d1.png'' then Some (grey 100)
      else if path = ''d2.png'' then Some (grey 200)
      else None)"

definition ex_patch :: "key \<Rightarrow> string \<Rightarrow> int \<Rightarrow> int \<Rightarrow> key \<times> row" where
  "ex_patch k path x y =
     (k, [(''image_path'', VStr path), (''parent_id'', VStr ''map.png''),
          (''shape'', VTuple [VInt 2, VInt 2, VInt 3]),
          (''min_x'', VInt x), (''min_y'', VInt y), (''label'', VNone)])"

definition ex_context :: annotator where
  "ex_context =
     ex_session
       \<lparr>table :=
          \<lparr>columns = [''image_path'', ''parent_id'', ''shape'', ''min_x'', ''min_y'', ''label''],
           rows = [ex_patch ''f'' ''f.png'' 0 0, ex_patch ''r'' ''r.png'' 2 0,
                   ex_patch ''d1'' ''d1.png'' 0 2, ex_patch ''d2'' ''d2.png'' 0 2]\<rparr>,
        queue := [''f''], current_index := 0, show_context := True\<rparr>"

definition ex_geometry :: geometry where
  "ex_geometry =
     \<lparr>g_min_x = 0, g_min_y = 0, g_height = 2, g_width = 2,
      parent_frame = rows (table ex_context)\<rparr>"

definition ex_tiles :: "8 word \<Rightarrow> tile list" where
  "ex_tiles v =
     [Blank 2 2, Blank 2 2, Blank 2 2,
      Blank 2 2, Picture (grey 0), Picture (grey v),
      Blank 2 2, Blank 2 2, Blank 2 2]"

section \<open>Saving, rendering and navigation\<close>

text \<open>
  What the methods below ask of the world outside the annotator: the image files
  (\<^verbatim>\<open>Image.open\<close>), whether a file can be written (\<^verbatim>\<open>to_csv\<close> raises OSError when not), and
  whether an IPython shell is running. The last one decides what \<^verbatim>\<open>with self.out:\<close> does
  with an exception raised in its body: \<^verbatim>\<open>Output.__exit__\<close> of ipywidgets shows the
  traceback in the widget and suppresses the exception when \<^verbatim>\<open>get_ipython()\<close> gives a
  shell, and lets it propagate otherwise.
\<close>

record world =
  disk :: "string \<Rightarrow> image option"
  writable :: "string \<Rightarrow> bool"
  ipython :: bool

text \<open>\<^verbatim>\<open>"context_label" if self._annotate_context else self.label_col\<close>, as
  \<^verbatim>\<open>get_labelled_data\<close> and \<^verbatim>\<open>render\<close> both compute it.\<close>

definition filter_col :: "annotator \<Rightarrow> string" where
  "filter_col st = (if annotate_context st then ''context_label'' else label_col st)"

text \<open>\<^verbatim>\<open>x.split(c)\<close> for a separator of one character: at least one part.\<close>

fun split_on :: "char \<Rightarrow> string \<Rightarrow> string list" where
  "split_on c [] = [[]]"
| "split_on c (x # xs) =
     (let ps = split_on c xs in if x = c then [] # ps else (x # hd ps) # tl ps)"

text \<open>
  The sort value of an index label, \<^verbatim>\<open>f"{x.split('#')[1]}-{x.split('#')[0]}"\<close>, paired with
  the label: IndexError for a string without \<^verbatim>\<open>#\<close>, AttributeError for a label that is
  not a string.
\<close>

fun sort_value :: "val \<Rightarrow> py_error + string \<times> key" where
  "sort_value (VStr x) =
     (case split_on CHR ''#'' x of
        a # b # rest \<Rightarrow> Inr (b @ ''-'' @ a, x)
      | parts \<Rightarrow> Inl IndexError)"
| "sort_value v = Inl AttributeError"

text \<open>
  \<^verbatim>\<open>get_labelled_data(sort=True)\<close>, with \<^verbatim>\<open>index_labels=False\<close> and \<^verbatim>\<open>include_paths=True\<close>,
  as a function of the table and of the two column names it reads: KeyError without the
  column \<^verbatim>\<open>filter_col\<close>; then the rows whose cell in that column is not missing, indexed by the column \<^verbatim>\<open>image_id\<close>
  when there is one (which \<^verbatim>\<open>set_index\<close> then drops), cut down to the path and the label
  columns and sorted by the sort value of the index. Rows of equal sort value are kept
  in the order of the table.
\<close>

definition labelled_data :: "frame \<Rightarrow> string \<Rightarrow> string \<Rightarrow> py_error + frame" where
  "labelled_data df paths_col flt_col =
     (if flt_col \<notin> set (columns df) then Inl KeyError
      else
        let filtered_df = filter (\<lambda>kr. \<not> isna (cell (snd kr) flt_col)) (rows df);
            by_id = (''image_id'' \<in> set (columns df));
            cols = (if by_id then filter (\<lambda>c. c \<noteq> ''image_id'') (columns df)
                    else columns df);
            index = (if by_id then map (\<lambda>kr. cell (snd kr) ''image_id'') filtered_df
                     else map (\<lambda>kr. VStr (fst kr)) filtered_df)
        in if list_all (\<lambda>c. c \<in> set cols) [paths_col, flt_col]
           then and_then (collect sort_value index) (\<lambda>sort_values.
                  Inr \<lparr>columns = [paths_col, flt_col],
                       rows = map (\<lambda>skr. (snd (fst skr),
                                    [(paths_col, cell (snd (snd skr)) paths_col),
                                     (flt_col, cell (snd (snd skr)) flt_col)]))
                                (sort_key (\<lambda>skr. fst (fst skr))
                                   (zip sort_values filtered_df))\<rparr>)
           else Inl KeyError)"

definition get_labelled_data :: "annotator \<Rightarrow> py_error + frame" where
  "get_labelled_data st = labelled_data (table st) (patch_paths_col st) (filter_col st)"

text \<open>\<^verbatim>\<open>_auto_save\<close>: the name is \<^verbatim>\<open>annotations_file\<close> or, when the context is annotated,
  \<^verbatim>\<open>annotations_file[:-4]\<close> followed by \<^verbatim>\<open>_context.csv\<close>; then the labelled data are
  computed and written.\<close>

definition save_name :: "annotator \<Rightarrow> string" where
  "save_name st =
     (if annotate_context st
      then take (length (annotations_file_attr st) - 4) (annotations_file_attr st) @
           ''_context.csv''
      else annotations_file_attr st)"

definition auto_save_call :: "world \<Rightarrow> annotator \<Rightarrow> py_error + event" where
  "auto_save_call w st =
     and_then (get_labelled_data st) (\<lambda>df.
       if writable w (save_name st) then Inr (Saved (save_name st) df) else Inl OSError)"

text \<open>\<^verbatim>\<open>render_complete\<close>: the completion message, the save when \<^verbatim>\<open>auto_save\<close> is set,
  and then every button disabled. An exception of the save leaves the buttons as they
  are.\<close>

definition render_complete :: "world \<Rightarrow> annotator \<Rightarrow> annotator \<times> unit outcome" where
  "render_complete w st =
     (let st1 = st\<lparr>events := ShowComplete # events st\<rparr>
      in if auto_save st
         then (case auto_save_call w st of
                 Inl e \<Rightarrow> (st1, Raised e)
               | Inr saved \<Rightarrow>
                   (st1\<lparr>events := saved # events st1,
                        buttons := map (\<lambda>b. b\<lparr>disabled := True\<rparr>) (buttons st1)\<rparr>,
                    Returned ()))
         else (st1\<lparr>buttons := map (\<lambda>b. b\<lparr>disabled := True\<rparr>) (buttons st1)\<rparr>,
               Returned ()))"

text \<open>
  The loop of \<^verbatim>\<open>render\<close> over the buttons, for the row key \<^verbatim>\<open>ix\<close>. A button called
  \<^verbatim>\<open>prev\<close> or \<^verbatim>\<open>next\<close> is enabled or disabled by the position, one called \<^verbatim>\<open>submit\<close> is left
  alone, and any other one gets the check icon when the label cell of the row equals its
  description; reading that cell raises KeyError when the row or the column is not
  there. The buttons before the one that raises keep their new attributes.
\<close>

definition render_button :: "annotator \<Rightarrow> key \<Rightarrow> button \<Rightarrow> py_error + button" where
  "render_button st ix b =
     (if description b = ''prev'' then Inr (b\<lparr>disabled := current_index st \<le> 0\<rparr>)
      else if description b = ''next''
      then Inr (b\<lparr>disabled := current_index st \<ge> int (length (rows (table st))) - 1\<rparr>)
      else if description b \<noteq> ''submit''
      then and_then (df_at (table st) ix (filter_col st)) (\<lambda>v.
             Inr (b\<lparr>icon := (if v = VStr (description b) then ''check'' else [])\<rparr>))
      else Inr b)"

fun render_buttons ::
  "annotator \<Rightarrow> key \<Rightarrow> button list \<Rightarrow> button list \<times> py_error option" where
  "render_buttons st ix [] = ([], None)"
| "render_buttons st ix (b # bs) =
     (case render_button st ix b of
        Inl e \<Rightarrow> (b # bs, Some e)
      | Inr b' \<Rightarrow> (case render_buttons st ix bs of (bs', r) \<Rightarrow> (b' # bs', r)))"

text \<open>\<^verbatim>\<open>get_patch_image\<close>: the path of the row and the image behind it. \<^verbatim>\<open>Image.open\<close>
  takes a value that is not a path for a file object and raises AttributeError. The
  resizing to \<^verbatim>\<open>resize_to\<close> or \<^verbatim>\<open>max_size\<close> is left to the imaging library.\<close>

definition get_patch_image ::
  "(string \<Rightarrow> image option) \<Rightarrow> annotator \<Rightarrow> key \<Rightarrow> py_error + image" where
  "get_patch_image files st ix =
     and_then (df_at (table st) ix (patch_paths_col st)) (\<lambda>image_path.
       case image_path of
         VStr p \<Rightarrow> (case files p of None \<Rightarrow> Inl FileNotFoundError | Some im \<Rightarrow> Inr im)
       | v \<Rightarrow> Inl AttributeError)"

text \<open>
  The body of \<^verbatim>\<open>with self.out:\<close> in \<^verbatim>\<open>render\<close>: what it displays, newest first, and the
  exception that ends it, if any. The patch image is loaded even when the context is the
  one displayed; the value of the progress bar is
  \<^verbatim>\<open>self.current_index + 1 if self.current_index else 1\<close>.
\<close>

definition display_example ::
  "world \<Rightarrow> annotator \<Rightarrow> key \<Rightarrow> event list \<times> py_error option" where
  "display_example w st ix =
     (case get_patch_image (disk w) st ix of
        Inl e \<Rightarrow> ([], Some e)
      | Inr patch_image \<Rightarrow>
          (case (if show_context st
                 then and_then (get_context (disk w) st) (\<lambda>context. Inr (ShowContext ix))
                 else Inr (ShowPatch ix)) of
             Inl e \<Rightarrow> ([], Some e)
           | Inr shown \<Rightarrow>
               (case df_at (table st) ix ''url'' of
                  Inl e \<Rightarrow> ([shown], Some e)
                | Inr url \<Rightarrow>
                    ([ShowBar (if truthy url then Some url else None)
                        (if current_index st \<noteq> 0 then current_index st + 1 else 1)
                        (length (queue st)),
                      shown], None))))"

text \<open>
  \<^verbatim>\<open>render\<close>: complete when \<^verbatim>\<open>current_index >= len(self) - 1\<close> (the number of rows of the
  table, not of the queue); otherwise the row \<^verbatim>\<open>_queue[current_index]\<close>, the buttons, and
  the display inside the output widget. Evaluating \<^verbatim>\<open>self.out\<close> raises AttributeError when
  the attribute was never assigned.
\<close>

definition render :: "world \<Rightarrow> annotator \<Rightarrow> annotator \<times> unit outcome" where
  "render w st =
     (if current_index st \<ge> int (length (rows (table st))) - 1
      then render_complete w st
      else (case py_index (queue st) (current_index st) of
              Inl e \<Rightarrow> (st, Raised e)
            | Inr ix \<Rightarrow>
                (case render_buttons st ix (buttons st) of
                   (bs, Some e) \<Rightarrow> (st\<lparr>buttons := bs\<rparr>, Raised e)
                 | (bs, None) \<Rightarrow>
                     if out st
                     then (case display_example w st ix of
                             (shown, None) \<Rightarrow>
                               (st\<lparr>buttons := bs, events := shown @ events st\<rparr>,
                                Returned ())
                           | (shown, Some e) \<Rightarrow>
                               if ipython w
                               then (st\<lparr>buttons := bs,
                                        events := ShowTraceback e # shown @ events st\<rparr>,
                                     Returned ())
                               else (st\<lparr>buttons := bs, events := shown @ events st\<rparr>,
                                     Raised e))
                     else (st\<lparr>buttons := bs\<rparr>, Raised AttributeError))))"

text \<open>The last four statements of \<^verbatim>\<open>_next_example\<close> and of \<^verbatim>\<open>_prev_example\<close> are the
  same: read \<^verbatim>\<open>ix = self._queue[self.current_index]\<close> and the path of that row, render,
  return \<^verbatim>\<open>(previous_index, current_index, img_path)\<close>. After \<^verbatim>\<open>render_complete\<close> both
  methods return \<^verbatim>\<open>None\<close>.\<close>

definition show_example ::
  "world \<Rightarrow> annotator \<Rightarrow> annotator \<times> (int \<times> int \<times> val) option outcome" where
  "show_example w st =
     (case py_index (queue st) (current_index st) of
        Inl e \<Rightarrow> (st, Raised e)
      | Inr ix \<Rightarrow>
          (case df_at (table st) ix (patch_paths_col st) of
             Inl e \<Rightarrow> (st, Raised e)
           | Inr img_path \<Rightarrow>
               (case render w st of
                  (st', Raised e) \<Rightarrow> (st', Raised e)
                | (st', Returned u) \<Rightarrow>
                    (st', Returned (Some (previous_index st', current_index st', img_path))))))"

definition signal_complete ::
  "world \<Rightarrow> annotator \<Rightarrow> annotator \<times> (int \<times> int \<times> val) option outcome" where
  "signal_complete w st =
     (case render_complete w st of
        (st', Raised e) \<Rightarrow> (st', Raised e)
      | (st', Returned u) \<Rightarrow> (st', Returned None))"

definition next_example ::
  "world \<Rightarrow> annotator \<Rightarrow> annotator \<times> (int \<times> int \<times> val) option outcome" where
  "next_example w st =
     (if current_index st = int (length (queue st))
      then signal_complete w st
      else show_example w
             (st\<lparr>previous_index := current_index st,
                 current_index := current_index st + 1\<rparr>))"

definition prev_example ::
  "world \<Rightarrow> annotator \<Rightarrow> annotator \<times> (int \<times> int \<times> val) option outcome" where
  "prev_example w st =
     (if current_index st = int (length (queue st))
      then signal_complete w st
      else show_example w
             (if current_index st > 0
              then st\<lparr>previous_index := current_index st,
                      current_index := current_index st - 1\<rparr>
              else st))"


definition refreshed :: "annotator \<Rightarrow> val \<Rightarrow> button \<Rightarrow> button" where
  "refreshed st v b =
     (if description b = ''prev'' then b\<lparr>disabled := current_index st \<le> 0\<rparr>
      else if description b = ''next''
      then b\<lparr>disabled := int (length (rows (table st))) - 1 \<le> current_index st\<rparr>
      else if description b = ''submit'' then b
      else b\<lparr>icon := (if v = VStr (description b) then ''check'' else [])\<rparr>)"

definition shown_events :: "annotator \<Rightarrow> key \<Rightarrow> val \<Rightarrow> event list" where
  "shown_events st ix url =
     [ShowBar (if truthy url then Some url else None)
        (if current_index st = 0 then 1 else current_index st + 1) (length (queue st)),
      if show_context st then ShowContext ix else ShowPatch ix]"

text \<open>The image files of the small session, a disk that can be written, no IPython
  shell; the session once \<^verbatim>\<open>_annotate\<close> has made the output widget; and a table of a
  single patch with the cursor on it.\<close>

definition ex_world :: world where
  "ex_world =
     \<lparr>disk = (\<lambda>path. if path \<in> set [''p0.png'', ''p1.png'', ''p2.png''] then Some (grey 0)
                      else None),
      writable = (\<lambda>name. True), ipython = False\<rparr>"

definition ex_started :: annotator where
  "ex_started = ex_session\<lparr>out := True\<rparr>"


section \<open>Evaluating stringified columns\<close>

text \<open>
  \<^verbatim>\<open>ast.literal_eval\<close> parses a string as a Python literal and rejects any other
  object; the exceptions it raises are the ones \<^verbatim>\<open>_eval_df\<close> catches. The parser of
  literals is a parameter \<open>parse\<close>.
\<close>

fun is_str :: "val \<Rightarrow> bool" where
  "is_str (VStr s) = True"
| "is_str v = False"

fun literal_eval :: "(string \<Rightarrow> val option) \<Rightarrow> val \<Rightarrow> py_error + val" where
  "literal_eval parse (VStr s) = (case parse s of None \<Rightarrow> Inl ValueError | Some v \<Rightarrow> Inr v)"
| "literal_eval parse v = Inl ValueError"

definition col_cells :: "frame \<Rightarrow> string \<Rightarrow> val list" where
  "col_cells df col = map (\<lambda>kr. cell (snd kr) col) (rows df)"

text \<open>One round of the loop of \<^verbatim>\<open>_eval_df\<close>: \<^verbatim>\<open>df[col] = df[col].apply(literal_eval)\<close>
  inside \<^verbatim>\<open>try\<close>; when one cell raises, the column is not assigned.\<close>

definition eval_col :: "(string \<Rightarrow> val option) \<Rightarrow> frame \<Rightarrow> string \<Rightarrow> frame" where
  "eval_col parse df col =
     (case collect (literal_eval parse) (col_cells df col) of
        Inl e \<Rightarrow> df
      | Inr vs \<Rightarrow> set_col df col vs)"

definition eval_df :: "(string \<Rightarrow> val option) \<Rightarrow> frame \<Rightarrow> frame" where
  "eval_df parse df = foldl (eval_col parse) df (columns df)"

text \<open>A column on which \<^verbatim>\<open>literal_eval\<close> raises for some cell.\<close>

definition rejected :: "(string \<Rightarrow> val option) \<Rightarrow> val list \<Rightarrow> bool" where
  "rejected parse vs = list_ex (\<lambda>v. case literal_eval parse v of Inl e \<Rightarrow> True | Inr x \<Rightarrow> False) vs"

text \<open>
  Two kinds of Python literals, enough for an example: a decimal integer without sign
  and without leading zero, and a string in single quotes without quote, backslash or
  line break inside. Python's parser accepts more; on the strings used below it gives
  these values.
\<close>

definition is_digit :: "char \<Rightarrow> bool" where
  "is_digit c = (CHR ''0'' \<le> c \<and> c \<le> CHR ''9'')"

definition digits_value :: "string \<Rightarrow> int" where
  "digits_value s = foldl (\<lambda>n c. 10 * n + (int (of_char c) - 48)) 0 s"

definition parse_fragment :: "string \<Rightarrow> val option" where
  "parse_fragment s =
     (if s \<noteq> [] \<and> list_all is_digit s \<and> (hd s \<noteq> CHR ''0'' \<or> length s = 1)
      then Some (VInt (digits_value s))
      else if 2 \<le> length s \<and> hd s = CHR 0x27 \<and> last s = CHR 0x27 \<and>
              list_all (\<lambda>c. c \<noteq> CHR 0x27 \<and> c \<noteq> CHR 0x5C \<and> c \<noteq> CHR 0x0A \<and> c \<noteq> CHR 0x0D)
                (butlast (tl s))
      then Some (VStr (butlast (tl s)))
      else None)"

definition coded_df :: "val \<Rightarrow> frame" where
  "coded_df v =
     \<lparr>columns = [''image_path'', ''code''],
      rows = [(''a'', [(''image_path'', VStr ''a.png''), (''code'', v)])]\<rparr>"

section \<open>Properties of the navigation\<close>


lemma py_index_last: "xs \<noteq> [] \<Longrightarrow> py_index xs (- 1) = Inr (last xs)"
  by (cases xs rule: rev_cases) (simp_all add: py_index_def nth_append)

lemma df_at_rows_nonempty: "df_at df k c = Inr v \<Longrightarrow> rows df \<noteq> []"
  by (auto simp: df_at_def)

lemma render_buttons_ok:
  "df_at (table st) ix (filter_col st) = Inr v \<Longrightarrow>
   render_buttons st ix bs = (map (refreshed st v) bs, None)"
  by (induction bs) (simp_all add: render_button_def refreshed_def and_then_def)




lemma render_shown:
  assumes ix: "py_index (queue st) (current_index st) = Inr ix"
    and more: "current_index st < int (length (rows (table st))) - 1"
    and o: "out st"
    and p: "df_at (table st) ix (patch_paths_col st) = Inr (VStr f)"
    and im: "disk w f = Some im"
    and v: "df_at (table st) ix (filter_col st) = Inr v"
    and u: "df_at (table st) ix ''url'' = Inr url"
    and ctx: "show_context st \<Longrightarrow> get_context (disk w) st = Inr tiles"
  shows "render w st =
           (st\<lparr>buttons := map (refreshed st v) (buttons st),
               events := shown_events st ix url @ events st\<rparr>, Returned ())"
proof -
  have g: "get_patch_image (disk w) st ix = Inr im"
    by (simp add: get_patch_image_def and_then_def p im)
  have d: "display_example w st ix = (shown_events st ix url, None)"
  proof (cases "show_context st")
    case True
    with ctx have "get_context (disk w) st = Inr tiles" by simp
    with True show ?thesis
      by (simp add: display_example_def g u and_then_def shown_events_def)
  next
    case False
    then show ?thesis
      by (simp add: display_example_def g u shown_events_def)
  qed
  from more have n: "\<not> int (length (rows (table st))) - 1 \<le> current_index st" by simp
  show ?thesis
    unfolding render_def
    by (simp only: n if_False ix sum.case render_buttons_ok [OF v] prod.case option.case o if_True d)
qed

lemma show_example_shown:
  assumes ix: "py_index (queue st) (current_index st) = Inr ix"
    and more: "current_index st < int (length (rows (table st))) - 1"
    and o: "out st"
    and p: "df_at (table st) ix (patch_paths_col st) = Inr (VStr f)"
    and im: "disk w f = Some im"
    and v: "df_at (table st) ix (filter_col st) = Inr v"
    and u: "df_at (table st) ix ''url'' = Inr url"
    and ctx: "show_context st \<Longrightarrow> get_context (disk w) st = Inr tiles"
  shows "show_example w st =
           (st\<lparr>buttons := map (refreshed st v) (buttons st),
               events := shown_events st ix url @ events st\<rparr>,
            Returned (Some (previous_index st, current_index st, VStr f)))"
  by (simp add: show_example_def ix p render_shown [OF ix more o p im v u ctx])


text \<open>
  C1. The guard of \<^verbatim>\<open>_next_example\<close> compares \<^verbatim>\<open>current_index\<close> with \<^verbatim>\<open>len(self._queue)\<close>
  before the increment. With the cursor on the last element of the queue (or at \<open>-1\<close> for
  an empty queue) the guard does not fire, the cursor is moved to \<^verbatim>\<open>len(self._queue)\<close> and
  \<^verbatim>\<open>self._queue[self.current_index]\<close> raises IndexError: the call that should report
  completion reads past the end of the queue, whatever the queue is.
\<close>

theorem next_example_past_last_raises:
  "next_example w (st\<lparr>current_index := int (length (queue st)) - 1\<rparr>) =
     (st\<lparr>current_index := int (length (queue st)),
         previous_index := int (length (queue st)) - 1\<rparr>, Raised IndexError)"
  by (simp add: next_example_def show_example_def py_index_def)






text \<open>
  C10. \<^verbatim>\<open>_prev_example\<close> before any advance (\<^verbatim>\<open>current_index = -1\<close>), on a non-empty queue
  whose last key is a row of the table with a path and a label cell. The cursor stays at
  \<open>-1\<close>, \<^verbatim>\<open>previous_index\<close> is untouched and the focal row is \<^verbatim>\<open>_queue[-1]\<close>, the last
  element of the queue, in either case. Without the output widget, which \<^verbatim>\<open>__init__\<close> does
  not create, the call marks the buttons for that row and raises AttributeError at
  \<^verbatim>\<open>with self.out:\<close>. With the widget, and the image and the cell \<^verbatim>\<open>url\<close> of the row
  there, it displays that row and returns the triple with the path of the last element.
\<close>

theorem prev_example_not_started:
  assumes q: "queue st \<noteq> []" and c: "current_index st = - 1"
    and p: "df_at (table st) (last (queue st)) (patch_paths_col st) = Inr (VStr f)"
    and v: "df_at (table st) (last (queue st)) (filter_col st) = Inr v"
  shows "(\<not> out st \<longrightarrow>
            prev_example w st =
              (st\<lparr>buttons := map (refreshed st v) (buttons st)\<rparr>, Raised AttributeError)) \<and>
         (out st \<and> disk w f = Some im \<and>
          df_at (table st) (last (queue st)) ''url'' = Inr url \<and>
          (show_context st \<longrightarrow> get_context (disk w) st = Inr tiles) \<longrightarrow>
            prev_example w st =
              (st\<lparr>buttons := map (refreshed st v) (buttons st),
                  events := shown_events st (last (queue st)) url @ events st\<rparr>,
               Returned (Some (previous_index st, - 1, VStr f))))"
proof (intro conjI impI)
  have ix: "py_index (queue st) (current_index st) = Inr (last (queue st))"
    using q c by (simp add: py_index_last)
  have "rows (table st) \<noteq> []" using p by (rule df_at_rows_nonempty)
  then have more: "current_index st < int (length (rows (table st))) - 1"
    using c by (cases "rows (table st)") simp_all
  have pe: "prev_example w st = show_example w st"
    using q c by (simp add: prev_example_def)
  {
    assume o: "\<not> out st"
    from more have n: "\<not> int (length (rows (table st))) - 1 \<le> current_index st" by simp
    have "render w st = (st\<lparr>buttons := map (refreshed st v) (buttons st)\<rparr>, Raised AttributeError)"
      unfolding render_def
      by (simp only: n if_False ix sum.case render_buttons_ok [OF v] prod.case option.case o)
    then show "prev_example w st =
              (st\<lparr>buttons := map (refreshed st v) (buttons st)\<rparr>, Raised AttributeError)"
      by (simp add: pe show_example_def ix p)
  }
  {
    assume h: "out st \<and> disk w f = Some im \<and>
          df_at (table st) (last (queue st)) ''url'' = Inr url \<and>
          (show_context st \<longrightarrow> get_context (disk w) st = Inr tiles)"
    then have o: "out st" and im: "disk w f = Some im"
      and u: "df_at (table st) (last (queue st)) ''url'' = Inr url"
      and ctx: "show_context st \<Longrightarrow> get_context (disk w) st = Inr tiles"
      by blast+
    from show_example_shown [OF ix more o p im v u ctx] c
    show "prev_example w st =
              (st\<lparr>buttons := map (refreshed st v) (buttons st),
                  events := shown_events st (last (queue st)) url @ events st\<rparr>,
               Returned (Some (previous_index st, - 1, VStr f)))"
      by (simp add: pe)
  }
qed

theorem prev_example_not_started_witness:
  "queue ex_started \<noteq> [] \<and> current_index ex_started = - 1 \<and> out ex_started \<and>
   prev_example ex_world ex_started =
     (ex_started\<lparr>events := [ShowBar (Some (VStr ''https://maps.test/1'')) 0 3,
                             ShowPatch ''patch-0-0-#map.png#'']\<rparr>,
      Returned (Some (0, - 1, VStr ''p0.png'')))"
proof -
  have q: "queue ex_started \<noteq> []" and c: "current_index ex_started = - 1"
    by (simp_all add: ex_started_def ex_session_def)
  have p: "df_at (table ex_started) (last (queue ex_started)) (patch_paths_col ex_started)
             = Inr (VStr ''p0.png'')"
    by (simp add: ex_started_def ex_session_def ex_table_def df_at_def)
  have v: "df_at (table ex_started) (last (queue ex_started)) (filter_col ex_started)
             = Inr VNone"
    by (simp add: filter_col_def ex_started_def ex_session_def ex_table_def df_at_def)
  from prev_example_not_started [where w = ex_world and im = "grey 0"
      and url = "VStr ''https://maps.test/1''" and tiles = "[]", OF q c p v]
  have "prev_example ex_world ex_started =
          (ex_started\<lparr>buttons := map (refreshed ex_started VNone) (buttons ex_started),
              events := shown_events ex_started (last (queue ex_started))
                          (VStr ''https://maps.test/1'') @ events ex_started\<rparr>,
           Returned (Some (previous_index ex_started, - 1, VStr ''p0.png'')))"
    by (simp add: ex_started_def ex_session_def ex_table_def ex_world_def df_at_def)
  then show ?thesis using q
    by (simp add: refreshed_def shown_events_def ex_started_def ex_session_def)
qed

text \<open>In the session as \<^verbatim>\<open>__init__\<close> leaves it the retreat raises: nothing is displayed
  and nothing is returned.\<close>

theorem retreat_before_annotate_raises:
  "current_index ex_session = - 1 \<and> queue ex_session \<noteq> [] \<and>
   prev_example ex_world ex_session = (ex_session, Raised AttributeError)"
  by (simp add: prev_example_def show_example_def render_def render_button_def and_then_def
      filter_col_def py_index_def df_at_def ex_session_def ex_table_def)

section \<open>Properties of the queue\<close>

lemma collect_all:
  "collect f xs = Inr ys \<Longrightarrow> list_all (\<lambda>b. b) ys = list_all (\<lambda>x. f x = Inr True) xs"
  by (induction xs arbitrary: ys) (auto split: sum.splits)

lemma collect_filter:
  "collect f xs = Inr ys \<Longrightarrow> map fst (filter snd (zip xs ys)) = filter (\<lambda>x. f x = Inr True) xs"
  by (induction xs arbitrary: ys) (auto split: sum.splits)

lemma mset_sample: "mset (sample ds xs) = mset xs"
proof (induction ds xs rule: sample.induct)
  case (3 d ds x xs)
  let ?ys = "x # xs"
  let ?i = "d mod length ?ys"
  have i: "?i < length ?ys" by simp
  have "mset ?ys = mset (take ?i ?ys @ ?ys ! ?i # drop (Suc ?i) ?ys)"
    using id_take_nth_drop [OF i] by simp
  with 3 show ?case by (simp add: Let_def)
qed simp_all

lemma check_eligibility_label:
  "label_col st = ''label'' \<Longrightarrow>
   check_eligibility (min_values st) (max_values st) r = Inr b \<Longrightarrow> b = eligible_row st r"
  by (auto simp: check_eligibility_def eligible_row_def collect_all
      split: option.splits sum.splits if_splits)

lemma collect_Inr_each:
  "collect f xs = Inr ys \<Longrightarrow> x \<in> set xs \<Longrightarrow> \<exists>b. f x = Inr b"
  by (induction xs arbitrary: ys) (auto split: sum.splits)

text \<open>
  C3. \<^verbatim>\<open>get_queue\<close> with the default label column (\<^verbatim>\<open>label_col = "label"\<close>, the column
  \<^verbatim>\<open>check_eligibility\<close> reads): when it returns, the queue holds, once for each such row and
  in some order, the keys of exactly the rows whose label is \<^verbatim>\<open>None\<close> and whose cells
  satisfy every \<^verbatim>\<open>min_values\<close> bound (\<open>\<ge>\<close>) and every \<^verbatim>\<open>max_values\<close> bound (\<open>\<le>\<close>). The label
  test is \<^verbatim>\<open>is not None\<close>: an empty string counts as a label.
\<close>

theorem get_queue_eligible:
  assumes lc: "label_col st = ''label''" and q: "get_queue ds st = Inr q"
  shows "mset q = mset (map fst (filter (\<lambda>kr. eligible_row st (snd kr)) (rows (table st))))"
proof -
  let ?f = "\<lambda>kr. check_eligibility (min_values st) (max_values st) (snd kr)"
  from q obtain flags where c: "collect ?f (rows (table st)) = Inr flags"
    and qq: "q = map fst (sample ds (map fst (filter snd (zip (rows (table st)) flags))))"
    by (auto simp: get_queue_def split: sum.splits)
  have "filter (\<lambda>kr. ?f kr = Inr True) (rows (table st)) =
        filter (\<lambda>kr. eligible_row st (snd kr)) (rows (table st))"
  proof (rule filter_cong [OF refl])
    fix kr assume "kr \<in> set (rows (table st))"
    with c obtain b where b: "?f kr = Inr b" using collect_Inr_each by fastforce
    with lc have "b = eligible_row st (snd kr)" by (rule check_eligibility_label)
    with b show "(?f kr = Inr True) = eligible_row st (snd kr)" by auto
  qed
  with collect_filter [OF c] qq show ?thesis
    by (simp add: mset_sample mset_map)
qed

theorem get_queue_eligible_witness:
  "label_col ex_scores = ''label'' \<and> get_queue [1, 0] ex_scores = Inr [''b''] \<and>
   eligible_row ex_scores [(''image_path'', VStr ''b.png''), (''score'', VFloat (6 / 10)), (''label'', VNone)] \<and>
   \<not> eligible_row ex_scores [(''image_path'', VStr ''a.png''), (''score'', VFloat (4 / 10)), (''label'', VNone)] \<and>
   mset [''b''] = mset (map fst (filter (\<lambda>kr. eligible_row ex_scores (snd kr)) (rows (table ex_scores))))"
proof -
  have lc: "label_col ex_scores = ''label''" by (simp add: ex_scores_def ex_session_def)
  have q: "get_queue [1, 0] ex_scores = Inr [''b'']"
    by (simp add: get_queue_def check_eligibility_def row_ge_def row_get_def
        ex_scores_def ex_session_def)
  have e: "eligible_row ex_scores [(''image_path'', VStr ''b.png''), (''score'', VFloat (6 / 10)), (''label'', VNone)]"
    "\<not> eligible_row ex_scores [(''image_path'', VStr ''a.png''), (''score'', VFloat (4 / 10)), (''label'', VNone)]"
    by (simp_all add: eligible_row_def row_ge_def row_get_def ex_scores_def ex_session_def)
  from get_queue_eligible [OF lc q] lc q e show ?thesis by simp
qed

text \<open>A row whose label is the empty string, with no bound configured, is left out of
  the queue.\<close>

theorem empty_label_not_queued:
  "null_or_empty (VStr []) \<and>
   rows (table ex_empty_label) = [(''a'', [(''image_path'', VStr ''a.png''), (''label'', VStr [])])] \<and>
   min_values ex_empty_label = [] \<and> max_values ex_empty_label = [] \<and>
   get_queue [] ex_empty_label = Inr []"
  by (simp add: null_or_empty_def get_queue_def check_eligibility_def ex_empty_label_def ex_session_def)

section \<open>Properties of the resume merge\<close>

lemma collect_ok: "(\<And>x. x \<in> set xs \<Longrightarrow> f x = Inr (g x)) \<Longrightarrow> collect f xs = Inr (map g xs)"
  by (induction xs) simp_all

lemma collect_err:
  "(\<And>x. x \<in> set xs \<Longrightarrow> f x = Inr (g x) \<or> f x = Inl e) \<Longrightarrow>
   \<exists>x \<in> set xs. f x = Inl e \<Longrightarrow> collect f xs = Inl e"
proof (induction xs)
  case Nil
  then show ?case by simp
next
  case (Cons x xs)
  show ?case
  proof (cases "f x")
    case (Inl e')
    with Cons.prems(1) [of x] show ?thesis by auto
  next
    case (Inr y)
    with Cons.prems have "\<exists>x \<in> set xs. f x = Inl e" by auto
    with Cons.IH Cons.prems(1) have "collect f xs = Inl e" by simp
    with Inr show ?thesis by simp
  qed
qed

lemma legacy_label_int:
  "is_int v \<Longrightarrow>
   legacy_label labels v =
     (if index_ok (length labels) v then Inr (resolve labels v) else Inl IndexError)"
  by (cases v) (auto simp: py_index_def)

text \<open>
  C8. A save whose label column has integer dtype is converted before the merge by
  \<^verbatim>\<open>labels[x]\<close>. When every index lies in \<^verbatim>\<open>-len(labels) .. len(labels) - 1\<close> the column
  becomes the resolved labels, an index \<open>i \<ge> 0\<close> giving the \<open>i\<close>-th label and a negative
  one the label counted from the end; when some index lies outside, the whole load
  raises IndexError.
\<close>

theorem legacy_indices_resolved:
  assumes col: "get_col existing lcol = Inr old" and int: "dtype_is_int old"
  shows "if list_all (index_ok (length labels)) old
         then convert_legacy labels lcol existing =
                Inr (set_col existing lcol (map (resolve labels) old))
         else resume_merge labels lcol pcol patch_df existing = Inl IndexError"
proof (cases "list_all (index_ok (length labels)) old")
  case True
  have "collect (legacy_label labels) old = Inr (map (resolve labels) old)"
  proof (rule collect_ok)
    fix v assume v: "v \<in> set old"
    with int have "is_int v" by (simp add: dtype_is_int_def list_all_iff)
    moreover from v True have "index_ok (length labels) v" by (simp add: list_all_iff)
    ultimately show "legacy_label labels v = Inr (resolve labels v)"
      by (simp add: legacy_label_int)
  qed
  with col int True show ?thesis by (simp add: convert_legacy_def and_then_def)
next
  case False
  have "collect (legacy_label labels) old = Inl IndexError"
  proof (rule collect_err)
    fix v assume "v \<in> set old"
    with int have "is_int v" by (simp add: dtype_is_int_def list_all_iff)
    then show "legacy_label labels v = Inr (resolve labels v) \<or>
               legacy_label labels v = Inl IndexError"
      by (simp add: legacy_label_int)
  next
    from False obtain v where v: "v \<in> set old" "\<not> index_ok (length labels) v"
      by (auto simp: list_all_iff)
    with int have "is_int v" by (simp add: dtype_is_int_def list_all_iff)
    then have "legacy_label labels v = Inl IndexError"
      using v by (simp add: legacy_label_int)
    with v show "\<exists>v \<in> set old. legacy_label labels v = Inl IndexError"
      by blast
  qed
  with col int have c: "convert_legacy labels lcol existing = Inl IndexError"
    by (simp add: convert_legacy_def and_then_def)
  from col have "lcol \<in> set (columns existing)"
    by (auto simp: get_col_def split: if_splits)
  with c False show ?thesis by (simp add: resume_merge_def and_then_def)
qed


theorem legacy_indices_resolved_witness:
  "get_col (saved_df ''label'' (VInt 1)) ''label'' = Inr [VInt 1] \<and> dtype_is_int [VInt 1] \<and>
   convert_legacy [''a'', ''b''] ''label'' (saved_df ''label'' (VInt 1)) =
     Inr (saved_df ''label'' (VStr ''b'')) \<and>
   resume_merge [''a'', ''b''] ''label'' ''image_path'' (fresh_df ''label'')
       (saved_df ''label'' (VInt 1)) =
     Inr \<lparr>columns = [''changed'', ''label'', ''image_path''],
          rows = [(''a'', [(''changed'', VBool False), (''label'', VNone),
                           (''image_path'', VStr ''a.png'')]),
                  (''b'', [(''changed'', VBool True), (''label'', VStr ''b''),
                           (''image_path'', VStr ''b.png'')])]\<rparr> \<and>
   get_col (saved_df ''label'' (VInt 5)) ''label'' = Inr [VInt 5] \<and> dtype_is_int [VInt 5] \<and>
   resume_merge [''a'', ''b''] ''label'' ''image_path'' (fresh_df ''label'')
       (saved_df ''label'' (VInt 5)) = Inl IndexError"
proof -
  have c1: "get_col (saved_df ''label'' (VInt 1)) ''label'' = Inr [VInt 1]"
    and c5: "get_col (saved_df ''label'' (VInt 5)) ''label'' = Inr [VInt 5]"
    by (simp_all add: get_col_def saved_df_def cell_def)
  have d1: "dtype_is_int [VInt 1]" and d5: "dtype_is_int [VInt 5]"
    by (simp_all add: dtype_is_int_def)
  have conv: "convert_legacy [''a'', ''b''] ''label'' (saved_df ''label'' (VInt 1)) =
     Inr (saved_df ''label'' (VStr ''b''))"
    using legacy_indices_resolved [OF c1 d1, of "[''a'', ''b'']"]
    by (simp add: set_col_def saved_df_def)
  have m: "resume_merge [''a'', ''b''] ''label'' ''image_path'' (fresh_df ''label'')
       (saved_df ''label'' (VStr ''b'')) =
     Inr \<lparr>columns = [''changed'', ''label'', ''image_path''],
          rows = [(''a'', [(''changed'', VBool False), (''label'', VNone),
                           (''image_path'', VStr ''a.png'')]),
                  (''b'', [(''changed'', VBool True), (''label'', VStr ''b''),
                           (''image_path'', VStr ''b.png'')])]\<rparr>"
    by (simp add: resume_merge_def convert_legacy_def and_then_def get_col_def set_col_def
        drop_cols_def join_left_def suffixed_def rename_row_def fillna_def cell_def
        dtype_is_int_def fresh_df_def saved_df_def)
  have m1: "resume_merge [''a'', ''b''] ''label'' ''image_path'' (fresh_df ''label'')
       (saved_df ''label'' (VInt 1)) =
     resume_merge [''a'', ''b''] ''label'' ''image_path'' (fresh_df ''label'')
       (saved_df ''label'' (VStr ''b''))"
    using conv
    by (simp add: resume_merge_def convert_legacy_def and_then_def get_col_def
         dtype_is_int_def saved_df_def cell_def)
  have e5: "resume_merge [''a'', ''b''] ''label'' ''image_path'' (fresh_df ''label'')
       (saved_df ''label'' (VInt 5)) = Inl IndexError"
    using legacy_indices_resolved [OF c5 d5, of "[''a'', ''b'']" "''image_path''" "fresh_df ''label''"]
    by simp
  from c1 c5 d1 d5 conv m m1 e5 show ?thesis by simp
qed

text \<open>The saved index \<open>-1\<close> is not an index of the two labels, yet it is resolved to the
  last one and merged without an error.\<close>

theorem negative_index_wraps:
  "\<not> (0 \<le> (- 1 :: int) \<and> (- 1 :: int) < int (length [''a'', ''b''])) \<and>
   resume_merge [''a'', ''b''] ''label'' ''image_path'' (fresh_df ''label'')
       (saved_df ''label'' (VInt (- 1))) =
     Inr \<lparr>columns = [''changed'', ''label'', ''image_path''],
          rows = [(''a'', [(''changed'', VBool False), (''label'', VNone),
                           (''image_path'', VStr ''a.png'')]),
                  (''b'', [(''changed'', VBool True), (''label'', VStr ''b''),
                           (''image_path'', VStr ''b.png'')])]\<rparr>"
  by (simp add: resume_merge_def convert_legacy_def and_then_def get_col_def set_col_def
        drop_cols_def join_left_def suffixed_def rename_row_def fillna_def cell_def
        dtype_is_int_def py_index_def fresh_df_def saved_df_def)

text \<open>
  C2. With a label column named otherwise than \<^verbatim>\<open>label\<close> the join produces the columns
  \<^verbatim>\<open>category_x\<close> and \<^verbatim>\<open>category_y\<close>, and line 241 reads \<^verbatim>\<open>patch_df["label_y"]\<close>: the merge
  raises KeyError, where the same tables under the name \<^verbatim>\<open>label\<close> are merged.
\<close>

theorem resume_merge_label_y:
  "resume_merge [''a'', ''b''] ''category'' ''image_path'' (fresh_df ''category'')
       (saved_df ''category'' (VStr ''b'')) = Inl KeyError \<and>
   resume_merge [''a'', ''b''] ''label'' ''image_path'' (fresh_df ''label'')
       (saved_df ''label'' (VStr ''b'')) =
     Inr \<lparr>columns = [''changed'', ''label'', ''image_path''],
          rows = [(''a'', [(''changed'', VBool False), (''label'', VNone),
                           (''image_path'', VStr ''a.png'')]),
                  (''b'', [(''changed'', VBool True), (''label'', VStr ''b''),
                           (''image_path'', VStr ''b.png'')])]\<rparr>"
  by (simp add: resume_merge_def convert_legacy_def and_then_def get_col_def set_col_def
        drop_cols_def join_left_def suffixed_def rename_row_def fillna_def cell_def
        dtype_is_int_def fresh_df_def saved_df_def)

section \<open>Properties of the save file name\<close>





text \<open>No digest of a fixed length over a finite alphabet can tell all path lists apart.\<close>

lemma digest_collision:
  fixes md5hex :: "string \<Rightarrow> string"
  assumes len: "\<And>s. length (md5hex s) = n"
  shows "\<exists>ps qs. mset ps \<noteq> mset qs \<and>
           annotations_name dumps md5hex rnd ps username task_name =
           annotations_name dumps md5hex rnd qs username task_name"
proof -
  let ?f = "\<lambda>k :: nat. md5hex (dumps (sort [replicate k CHR ''a'']))"
  have "range ?f \<subseteq> {s. set s \<subseteq> (UNIV :: char set) \<and> length s = n}"
    using len by auto
  moreover have "finite {s. set s \<subseteq> (UNIV :: char set) \<and> length s = n}"
    by (rule finite_lists_length_eq) simp
  ultimately have "finite (range ?f)" by (rule finite_subset)
  then have "\<not> inj ?f" using finite_imageD infinite_UNIV_nat by blast
  then obtain j k where jk: "j \<noteq> k" "?f j = ?f k" by (auto simp: inj_on_def)
  have "mset [replicate j CHR ''a''] \<noteq> mset [replicate k CHR ''a'']"
  proof
    assume "mset [replicate j CHR ''a''] = mset [replicate k CHR ''a'']"
    then have "replicate j CHR ''a'' = replicate k CHR ''a''" by simp
    then have "j = k" by (metis length_replicate)
    with jk show False by simp
  qed
  moreover have "annotations_name dumps md5hex rnd [replicate j CHR ''a''] username task_name =
           annotations_name dumps md5hex rnd [replicate k CHR ''a''] username task_name"
    using jk by (simp add: annotations_name_def image_list_def)
  ultimately show ?thesis by blast
qed

section \<open>Properties of the context\<close>

lemma collect_nth:
  "collect f xs = Inr ys \<Longrightarrow>
   length ys = length xs \<and> (\<forall>j < length xs. f (xs ! j) = Inr (ys ! j))"
proof (induction xs arbitrary: ys)
  case Nil
  then show ?case by simp
next
  case (Cons x xs)
  from Cons.prems obtain y ys' where y: "f x = Inr y" and c: "collect f xs = Inr ys'"
    and ys: "ys = y # ys'"
    by (auto split: sum.splits)
  from Cons.IH [OF c] have l: "length ys' = length xs"
    and n: "\<forall>j < length xs. f (xs ! j) = Inr (ys' ! j)" by simp_all
  show ?case
  proof (intro conjI allI impI)
    show "length ys = length (x # xs)" using l ys by simp
  next
    fix j assume "j < length (x # xs)"
    then show "f ((x # xs) ! j) = Inr (ys ! j)"
      using y n ys by (cases j) simp_all
  qed
qed

lemma and_then_Inr: "and_then x f = Inr y \<Longrightarrow> \<exists>v. x = Inr v \<and> f v = Inr y"
  by (cases x) (simp_all add: and_then_def)

lemma get_context_slots:
  assumes gc: "get_context files st = Inr tiles"
    and ix: "py_index (queue st) (current_index st) = Inr ix"
    and g: "focal_geometry files st ix = Inr g"
    and j: "j < length tiles"
  shows "j < length (context_items (surrounding st) g) \<and>
         (\<exists>path. slot_path (columns (table st)) (context_items (surrounding st) g ! j) = Inr path \<and>
            slot_tile files st g
              (path, slot_id (context_items (surrounding st) g ! j) \<noteq> Some ix) = Inr (tiles ! j))"
proof -
  define items where "items = context_items (surrounding st) g"
  define dims where "dims = map (\<lambda>x. slot_id x \<noteq> Some ix) items"
  from gc have "and_then (py_index (queue st) (current_index st)) (\<lambda>ix.
     and_then (focal_geometry files st ix) (\<lambda>g.
       and_then (collect (slot_path (columns (table st))) (context_items (surrounding st) g))
         (\<lambda>image_paths.
            collect (slot_tile files st g)
              (zip image_paths
                 (map (\<lambda>x. slot_id x \<noteq> Some ix) (context_items (surrounding st) g)))))) =
     Inr tiles"
    unfolding get_context_def Let_def .
  from and_then_Inr [OF this] ix
  have "and_then (focal_geometry files st ix) (\<lambda>g.
       and_then (collect (slot_path (columns (table st))) (context_items (surrounding st) g))
         (\<lambda>image_paths.
            collect (slot_tile files st g)
              (zip image_paths
                 (map (\<lambda>x. slot_id x \<noteq> Some ix) (context_items (surrounding st) g))))) =
     Inr tiles"
    by force
  from and_then_Inr [OF this] g
  have "and_then (collect (slot_path (columns (table st))) items)
         (\<lambda>image_paths. collect (slot_tile files st g) (zip image_paths dims)) = Inr tiles"
    unfolding items_def dims_def by force
  from and_then_Inr [OF this]
  obtain paths where p: "collect (slot_path (columns (table st))) items = Inr paths"
    and t: "collect (slot_tile files st g) (zip paths dims) = Inr tiles"
    by blast
  from collect_nth [OF p] have lp: "length paths = length items"
    and np: "\<forall>j < length items. slot_path (columns (table st)) (items ! j) = Inr (paths ! j)"
    by blast+
  from collect_nth [OF t] have lt: "length tiles = length (zip paths dims)"
    and nt: "\<forall>j < length (zip paths dims).
               slot_tile files st g (zip paths dims ! j) = Inr (tiles ! j)"
    by blast+
  have ld: "length dims = length items" by (simp add: dims_def)
  from lt lp ld have lti: "length tiles = length items" by simp
  with j have ji: "j < length items" by simp
  have z: "zip paths dims ! j = (paths ! j, slot_id (items ! j) \<noteq> Some ix)"
    using ji lp ld by (simp add: dims_def)
  from j lt have "j < length (zip paths dims)" by simp
  with nt have "slot_tile files st g (zip paths dims ! j) = Inr (tiles ! j)" by blast
  then have "slot_tile files st g (paths ! j, slot_id (items ! j) \<noteq> Some ix) = Inr (tiles ! j)"
    by (simp only: z)
  moreover from np ji have "slot_path (columns (table st)) (items ! j) = Inr (paths ! j)"
    by blast
  ultimately show ?thesis using ji unfolding items_def by blast
qed

lemma lighten_value: "unat (lighten old) = (768 + 2 * unat old) div 5"
proof -
  define k where "k = uint old"
  have "k < 2 ^ LENGTH(8)" unfolding k_def by (rule uint_lt2p)
  then have k: "0 \<le> k" "k < 256" by (simp_all add: k_def)
  have nk: "unat old = nat k" by (simp only: k_def unat_eq_nat_uint)
  have "(of_nat (unat old) :: rat) = of_int k" using k by (simp add: nk)
  then have "256 - (256 - of_nat (unat old)) * (4 / 10 :: rat) = of_int (768 + 2 * k) / of_int 5"
    by (simp add: field_simps)
  then have "\<lfloor>256 - (256 - of_nat (unat old)) * (4 / 10 :: rat)\<rfloor> = (768 + 2 * k) div 5"
    by (simp only: floor_divide_of_int_eq)
  then have l: "lighten old = word_of_int ((768 + 2 * k) div 5)"
    by (simp only: lighten_def)
  have b: "0 \<le> (768 + 2 * k) div 5" "(768 + 2 * k) div 5 < 256"
    using k by arith+
  have "uint (lighten old) = ((768 + 2 * k) div 5) mod 2 ^ LENGTH(8)"
    unfolding l by (rule uint_word_of_int)
  with b have "uint (lighten old) = (768 + 2 * k) div 5" by simp
  then have "unat (lighten old) = nat ((768 + 2 * k) div 5)"
    by (simp only: unat_eq_nat_uint)
  also have "\<dots> = (768 + 2 * nat k) div 5"
    using k by (simp add: nat_div_distrib nat_add_distrib nat_mult_distrib)
  finally show ?thesis by (simp only: nk)
qed

lemma l6: "lighten 6 = 156" and s6: "lighten_spec 6 = 106"
  by (simp_all add: lighten_def lighten_spec_def)

lemma ex_index: "py_index (queue ex_context) (current_index ex_context) = Inr ''f''"
  by (simp add: py_index_def ex_context_def ex_session_def)

lemma ex_focal: "focal_geometry ex_files ex_context ''f'' = Inr ex_geometry"
  by (simp add: focal_geometry_def patch_size_def and_then_def df_at_def cell_def
      ex_geometry_def ex_context_def ex_session_def ex_patch_def)

lemma ex_items:
  "context_items (surrounding ex_context) ex_geometry =
     [[], [], [], [], [ex_patch ''f'' ''f.png'' 0 0], [ex_patch ''r'' ''r.png'' 2 0], [],
      [ex_patch ''d1'' ''d1.png'' 0 2, ex_patch ''d2'' ''d2.png'' 0 2], []]"
  by (simp add: context_items_def cell_def ex_geometry_def ex_context_def ex_session_def
      ex_patch_def upto.simps)

lemma ex_context_tiles: "get_context ex_files ex_context = Inr (ex_tiles 156)"
proof -
  have c: "columns (table ex_context) =
             [''image_path'', ''parent_id'', ''shape'', ''min_x'', ''min_y'', ''label'']"
    and a: "annotate_context ex_context = False"
    by (simp_all add: ex_context_def ex_session_def)
  have "get_context ex_files ex_context =
          and_then (collect (slot_path (columns (table ex_context)))
                      (context_items (surrounding ex_context) ex_geometry))
            (\<lambda>image_paths. collect (slot_tile ex_files ex_context ex_geometry)
               (zip image_paths
                  (map (\<lambda>x. slot_id x \<noteq> Some ''f'')
                     (context_items (surrounding ex_context) ex_geometry))))"
    by (simp add: get_context_def and_then_def Let_def ex_index ex_focal)
  also have "\<dots> = Inr (ex_tiles 156)"
    unfolding ex_items c
    by (simp add: and_then_def slot_path_def slot_id_def slot_tile_def get_path_def a cell_def
        ex_files_def grey_def l6 ex_geometry_def ex_patch_def ex_tiles_def)
  finally show ?thesis .
qed

text \<open>
  C5. In the images that \<^verbatim>\<open>get_context\<close> composes, a slot matched by exactly one row with
  a path shows that row's image: as it is on disk when the row is the focal one or the
  session annotates at context level, and otherwise with every sample \<open>old\<close> replaced by
  \<^verbatim>\<open>256 - (256 - old) * 0.4\<close> truncated to 8 bits, which is \<open>(768 + 2 old) div 5\<close>.
\<close>

theorem context_dimming:
  assumes gc: "get_context files st = Inr tiles"
    and ix: "py_index (queue st) (current_index st) = Inr ix"
    and g: "focal_geometry files st ix = Inr g"
    and j: "j < length tiles"
    and found: "context_items (surrounding st) g ! j = [(k, r)]"
    and path: "cell r ''image_path'' = VStr p" "p \<noteq> []"
  shows "(\<exists>im. files p = Some im \<and>
            tiles ! j = Picture (if annotate_context st \<or> k = ix then im
                                 else im\<lparr>samples := map lighten (samples im)\<rparr>)) \<and>
         unat (lighten old) = (768 + 2 * unat old) div 5"
proof
  from get_context_slots [OF gc ix g j] obtain v where
    v: "slot_path (columns (table st)) (context_items (surrounding st) g ! j) = Inr v"
    and t: "slot_tile files st g
              (v, slot_id (context_items (surrounding st) g ! j) \<noteq> Some ix) = Inr (tiles ! j)"
    by blast
  from v have "slot_path (columns (table st)) [(k, r)] = Inr v" by (simp only: found)
  with path have vp: "v = VStr p"
    by (simp add: slot_path_def split: if_splits)
  have "slot_id [(k, r)] = Some k" by (simp add: slot_id_def)
  with t have "slot_tile files st g (VStr p, k \<noteq> ix) = Inr (tiles ! j)"
    by (simp add: found vp)
  with path have "and_then (get_path files (annotate_context st) p (k \<noteq> ix))
                    (\<lambda>im. Inr (Picture im)) = Inr (tiles ! j)"
    by (simp add: slot_tile_def)
  from and_then_Inr [OF this]
  obtain im where im: "get_path files (annotate_context st) p (k \<noteq> ix) = Inr im"
    and tj: "tiles ! j = Picture im"
    by auto
  show "\<exists>im. files p = Some im \<and>
            tiles ! j = Picture (if annotate_context st \<or> k = ix then im
                                 else im\<lparr>samples := map lighten (samples im)\<rparr>)"
  proof (cases "files p")
    case None
    with im show ?thesis by (simp add: get_path_def)
  next
    case (Some im0)
    with im have "im = (if annotate_context st \<or> k = ix then im0
               else im0\<lparr>samples := map lighten (samples im0)\<rparr>)"
      by (auto simp: get_path_def)
    with tj Some show ?thesis by simp
  qed
next
  show "unat (lighten old) = (768 + 2 * unat old) div 5" by (rule lighten_value)
qed

theorem context_dimming_witness:
  "get_context ex_files ex_context = Inr (ex_tiles 156) \<and>
   py_index (queue ex_context) (current_index ex_context) = Inr ''f'' \<and>
   focal_geometry ex_files ex_context ''f'' = Inr ex_geometry \<and>
   5 < length (ex_tiles 156) \<and>
   context_items (surrounding ex_context) ex_geometry ! 5 = [ex_patch ''r'' ''r.png'' 2 0] \<and>
   ex_files ''r.png'' = Some (grey 6) \<and>
   ex_tiles 156 ! 5 = Picture ((grey 6)\<lparr>samples := map lighten (samples (grey 6))\<rparr>) \<and>
   unat (lighten 6) = 156"
proof -
  have j: "5 < length (ex_tiles 156)" by (simp add: ex_tiles_def)
  have found: "context_items (surrounding ex_context) ex_geometry ! 5 =
                 [(''r'', snd (ex_patch ''r'' ''r.png'' 2 0))]"
    by (simp add: ex_items ex_patch_def)
  have path: "cell (snd (ex_patch ''r'' ''r.png'' 2 0)) ''image_path'' = VStr ''r.png''"
    "''r.png'' \<noteq> []"
    by (simp_all add: cell_def ex_patch_def)
  have f: "ex_files ''r.png'' = Some (grey 6)" by (simp add: ex_files_def)
  have a: "annotate_context ex_context = False" by (simp add: ex_context_def ex_session_def)
  from context_dimming [OF ex_context_tiles ex_index ex_focal j found path, of 6] f a
  have "ex_tiles 156 ! 5 = Picture ((grey 6)\<lparr>samples := map lighten (samples (grey 6))\<rparr>)"
    and "unat (lighten 6) = 156"
    by simp_all
  with j f show ?thesis
    by (simp add: ex_context_tiles ex_index ex_focal ex_items)
qed

text \<open>The neighbour to the right of the focal patch has the sample 6: the code shows it
  with the sample 156, the transform of the specification would give 106.\<close>

theorem dimming_factor:
  "get_context ex_files ex_context = Inr (ex_tiles 156) \<and>
   ex_files ''r.png'' = Some (grey 6) \<and>
   ex_tiles 156 ! 5 = Picture (grey 156) \<and>
   (grey 6)\<lparr>samples := map lighten_spec (samples (grey 6))\<rparr> = grey 106 \<and>
   grey 156 \<noteq> grey 106"
  by (simp add: ex_context_tiles ex_files_def ex_tiles_def grey_def s6)

text \<open>
  C6. A slot whose expected origin is matched by no row or by more than one row of the
  parent is a blank tile of the size of the focal patch: the test is \<^verbatim>\<open>len(x.index) == 1\<close>,
  so an ambiguous match is not an error and shows no image.
\<close>

theorem context_ambiguous_blank:
  assumes gc: "get_context files st = Inr tiles"
    and ix: "py_index (queue st) (current_index st) = Inr ix"
    and g: "focal_geometry files st ix = Inr g"
    and j: "j < length tiles"
    and amb: "length (context_items (surrounding st) g ! j) \<noteq> 1"
  shows "tiles ! j = Blank (g_width g) (g_height g)"
proof -
  define x where "x = context_items (surrounding st) g ! j"
  from amb have "length x \<noteq> 1" by (simp add: x_def)
  then have sp: "slot_path (columns (table st)) x = Inr VNone"
    by (cases x; cases "tl x") (simp_all add: slot_path_def)
  from get_context_slots [OF gc ix g j] obtain v where
    v: "slot_path (columns (table st)) x = Inr v"
    and t: "slot_tile files st g (v, slot_id x \<noteq> Some ix) = Inr (tiles ! j)"
    unfolding x_def by blast
  from v sp have "v = VNone" by simp
  with t show ?thesis by (simp add: slot_tile_def)
qed

theorem context_ambiguous_blank_witness:
  "get_context ex_files ex_context = Inr (ex_tiles 156) \<and>
   py_index (queue ex_context) (current_index ex_context) = Inr ''f'' \<and>
   focal_geometry ex_files ex_context ''f'' = Inr ex_geometry \<and>
   7 < length (ex_tiles 156) \<and>
   length (context_items (surrounding ex_context) ex_geometry ! 7) = 2 \<and>
   ex_tiles 156 ! 7 = Blank 2 2"
proof -
  have j: "7 < length (ex_tiles 156)" by (simp add: ex_tiles_def)
  have two: "length (context_items (surrounding ex_context) ex_geometry ! 7) = 2"
    by (simp add: ex_items)
  then have amb: "length (context_items (surrounding ex_context) ex_geometry ! 7) \<noteq> 1"
    by simp
  from context_ambiguous_blank [OF ex_context_tiles ex_index ex_focal j amb]
  have "ex_tiles 156 ! 7 = Blank 2 2" by (simp add: ex_geometry_def)
  with j two show ?thesis by (simp add: ex_context_tiles ex_index ex_focal)
qed

text \<open>Two rows claim the origin below the focal patch and the image of the first of them
  is on disk, yet the slot is blank.\<close>

theorem ambiguous_slot_is_blank:
  "map fst (context_items (surrounding ex_context) ex_geometry ! 7) = [''d1'', ''d2''] \<and>
   ex_files ''d1.png'' = Some (grey 100) \<and>
   get_context ex_files ex_context = Inr (ex_tiles 156) \<and>
   ex_tiles 156 ! 7 = Blank 2 2"
  by (simp add: ex_context_tiles ex_items ex_files_def ex_tiles_def ex_patch_def)

section \<open>Properties of the evaluation of columns\<close>

lemma collect_fails:
  "x \<in> set xs \<Longrightarrow> f x = Inl e \<Longrightarrow> \<exists>e'. collect f xs = Inl e'"
  by (induction xs) (auto split: sum.splits)

lemma collect_length: "collect f xs = Inr ys \<Longrightarrow> length ys = length xs"
  by (induction xs arbitrary: ys) (auto split: sum.splits)

lemma rejectedI: "v \<in> set vs \<Longrightarrow> literal_eval parse v = Inl e \<Longrightarrow> rejected parse vs"
  unfolding rejected_def list_ex_iff by (rule bexI [of _ v]) simp_all

lemma rejectedE:
  assumes "rejected parse vs"
  shows "\<exists>v e. v \<in> set vs \<and> literal_eval parse v = Inl e"
proof -
  from assms have "\<exists>v \<in> set vs. case literal_eval parse v of Inl e \<Rightarrow> True | Inr x \<Rightarrow> False"
    by (simp only: rejected_def list_ex_iff)
  then obtain v where v: "v \<in> set vs"
    and c: "case literal_eval parse v of Inl e \<Rightarrow> True | Inr x \<Rightarrow> False" ..
  show ?thesis
  proof (cases "literal_eval parse v")
    case (Inl e)
    with v show ?thesis by blast
  next
    case (Inr x)
    with c show ?thesis by simp
  qed
qed

lemma rejected_eval_col:
  assumes "rejected parse (col_cells df col)"
  shows "eval_col parse df col = df"
proof -
  from rejectedE [OF assms] obtain v e where v: "v \<in> set (col_cells df col)"
    and e: "literal_eval parse v = Inl e" by blast
  from collect_fails [where f = "literal_eval parse", OF v e]
  obtain e' where "collect (literal_eval parse) (col_cells df col) = Inl e'" ..
  then show ?thesis by (simp add: eval_col_def)
qed

lemma native_rejected:
  assumes "v \<in> set vs" "\<not> is_str v"
  shows "rejected parse vs"
proof -
  from assms(2) have "literal_eval parse v = Inl ValueError" by (cases v) simp_all
  with assms(1) show ?thesis by (rule rejectedI)
qed

lemma foldl_fixed:
  "(\<And>c. c \<in> set cs \<Longrightarrow> rejected parse (col_cells d c)) \<Longrightarrow> foldl (eval_col parse) d cs = d"
  by (induction cs) (simp_all add: rejected_eval_col)

lemma cell_row_set_other: "c \<noteq> c' \<Longrightarrow> cell (row_set r c' v) c = cell r c"
  by (induction r) (auto simp: cell_def)

lemma col_cells_set_col_other:
  assumes "c \<noteq> c'" and "length vs = length (rows d)"
  shows "col_cells (set_col d c' vs) c = col_cells d c"
proof -
  have "map (\<lambda>krv. cell (row_set (snd (fst krv)) c' (snd krv)) c) (zip (rows d) vs) =
        map (\<lambda>krv. cell (snd (fst krv)) c) (zip (rows d) vs)"
    using assms(1) by (simp add: cell_row_set_other)
  also have "\<dots> = map (\<lambda>kr. cell (snd kr) c) (map fst (zip (rows d) vs))"
    by (simp add: comp_def)
  also have "map fst (zip (rows d) vs) = rows d"
    using assms(2) by simp
  finally show ?thesis
    by (simp add: col_cells_def set_col_def comp_def)
qed

lemma eval_col_other:
  assumes "c \<noteq> c'"
  shows "col_cells (eval_col parse d c') c = col_cells d c"
proof (cases "collect (literal_eval parse) (col_cells d c')")
  case (Inl e)
  then show ?thesis by (simp add: eval_col_def)
next
  case (Inr vs)
  then have "length vs = length (rows d)"
    using collect_length by (fastforce simp: col_cells_def)
  with assms Inr show ?thesis
    by (simp add: eval_col_def col_cells_set_col_other)
qed

lemma eval_col_native:
  assumes "v \<in> set (col_cells d c)" "\<not> is_str v"
  shows "col_cells (eval_col parse d c') c = col_cells d c"
proof (cases "c = c'")
  case True
  from assms have "rejected parse (col_cells d c)" by (rule native_rejected)
  with True show ?thesis by (simp add: rejected_eval_col)
next
  case False
  then show ?thesis by (rule eval_col_other)
qed

lemma foldl_native:
  "v \<in> set (col_cells d c) \<Longrightarrow> \<not> is_str v \<Longrightarrow>
   col_cells (foldl (eval_col parse) d cs) c = col_cells d c"
proof (induction cs arbitrary: d)
  case Nil
  then show ?case by simp
next
  case (Cons c' cs)
  have e: "col_cells (eval_col parse d c') c = col_cells d c"
    using Cons.prems by (rule eval_col_native)
  with Cons.prems have "v \<in> set (col_cells (eval_col parse d c') c)" by simp
  from Cons.IH [OF this Cons.prems(2)] e show ?case by simp
qed

lemma columns_eval_col: "c \<in> set (columns d) \<Longrightarrow> columns (eval_col parse d c) = columns d"
  by (simp add: eval_col_def set_col_def split: sum.splits)

lemma columns_foldl:
  "set cs \<subseteq> set (columns d) \<Longrightarrow> columns (foldl (eval_col parse) d cs) = columns d"
  by (induction cs arbitrary: d) (simp_all add: columns_eval_col)

lemma columns_eval_df: "columns (eval_df parse df) = columns df"
  by (simp add: eval_df_def columns_foldl)

text \<open>
  C9. \<^verbatim>\<open>_eval_df\<close>, whatever the parser of literals: a column with a cell that is not a
  string is left as it is; and evaluating the table a second time changes nothing when,
  in the once evaluated table, every column has a cell that \<^verbatim>\<open>literal_eval\<close> rejects (a
  cell that is not a string, or a string that is not a literal).
\<close>

theorem eval_df_native_and_twice:
  "(list_ex (\<lambda>v. \<not> is_str v) (col_cells df c) \<longrightarrow>
      col_cells (eval_df parse df) c = col_cells df c) \<and>
   (list_all (\<lambda>c. rejected parse (col_cells (eval_df parse df) c)) (columns df) \<longrightarrow>
      eval_df parse (eval_df parse df) = eval_df parse df)"
proof (intro conjI impI)
  assume "list_ex (\<lambda>v. \<not> is_str v) (col_cells df c)"
  then obtain v where "v \<in> set (col_cells df c)" "\<not> is_str v"
    by (auto simp: list_ex_iff)
  then show "col_cells (eval_df parse df) c = col_cells df c"
    unfolding eval_df_def by (rule foldl_native)
next
  assume "list_all (\<lambda>c. rejected parse (col_cells (eval_df parse df) c)) (columns df)"
  then have "\<And>c. c \<in> set (columns (eval_df parse df)) \<Longrightarrow>
               rejected parse (col_cells (eval_df parse df) c)"
    by (simp add: list_all_iff columns_eval_df)
  then have "foldl (eval_col parse) (eval_df parse df) (columns (eval_df parse df)) =
             eval_df parse df"
    by (rule foldl_fixed)
  then show "eval_df parse (eval_df parse df) = eval_df parse df"
    by (simp add: eval_df_def [of parse "eval_df parse df"])
qed


lemma parse_path: "parse_fragment ''a.png'' = None"
  by (simp add: parse_fragment_def is_digit_def)

lemma parse_quoted: "parse_fragment [CHR 0x27, CHR ''1'', CHR 0x27] = Some (VStr ''1'')"
  by (simp add: parse_fragment_def is_digit_def)

lemma parse_one: "parse_fragment ''1'' = Some (VInt 1)"
  by (simp add: parse_fragment_def is_digit_def digits_value_def)

lemma eval_coded:
  "eval_df parse_fragment (coded_df v) =
     (case literal_eval parse_fragment v of Inl e \<Rightarrow> coded_df v | Inr x \<Rightarrow> coded_df x)"
  by (simp add: eval_df_def eval_col_def col_cells_def cell_def set_col_def coded_df_def
      parse_path split: sum.splits)

theorem eval_df_native_and_twice_witness:
  "list_ex (\<lambda>v. \<not> is_str v) (col_cells (coded_df (VTuple [VInt 0, VInt 0, VInt 9, VInt 9])) ''code'') \<and>
   col_cells (eval_df parse_fragment (coded_df (VTuple [VInt 0, VInt 0, VInt 9, VInt 9]))) ''code'' =
     [VTuple [VInt 0, VInt 0, VInt 9, VInt 9]] \<and>
   list_all (\<lambda>c. rejected parse_fragment
                (col_cells (eval_df parse_fragment (coded_df (VTuple [VInt 0, VInt 0, VInt 9, VInt 9]))) c))
     (columns (coded_df (VTuple [VInt 0, VInt 0, VInt 9, VInt 9]))) \<and>
   eval_df parse_fragment (eval_df parse_fragment (coded_df (VTuple [VInt 0, VInt 0, VInt 9, VInt 9]))) =
     eval_df parse_fragment (coded_df (VTuple [VInt 0, VInt 0, VInt 9, VInt 9]))"
proof -
  let ?df = "coded_df (VTuple [VInt 0, VInt 0, VInt 9, VInt 9])"
  have n: "list_ex (\<lambda>v. \<not> is_str v) (col_cells ?df ''code'')"
    by (simp add: col_cells_def cell_def coded_df_def)
  have e: "eval_df parse_fragment ?df = ?df" by (simp add: eval_coded)
  have r: "list_all (\<lambda>c. rejected parse_fragment (col_cells (eval_df parse_fragment ?df) c))
             (columns ?df)"
    unfolding e by (simp add: rejected_def col_cells_def cell_def coded_df_def parse_path)
  note T = eval_df_native_and_twice [of ?df "''code''" parse_fragment]
  from T n have "col_cells (eval_df parse_fragment ?df) ''code'' = col_cells ?df ''code''"
    by blast
  then have c: "col_cells (eval_df parse_fragment ?df) ''code'' =
                  [VTuple [VInt 0, VInt 0, VInt 9, VInt 9]]"
    by (simp add: col_cells_def cell_def coded_df_def)
  from T r have "eval_df parse_fragment (eval_df parse_fragment ?df) = eval_df parse_fragment ?df"
    by blast
  with n c r show ?thesis by blast
qed

text \<open>A column of the quoted literal \<^verbatim>\<open>'1'\<close> evaluates to the string \<^verbatim>\<open>1\<close>, which the
  second evaluation turns into the integer 1.\<close>

theorem eval_df_twice_differs:
  "eval_df parse_fragment (coded_df (VStr [CHR 0x27, CHR ''1'', CHR 0x27])) = coded_df (VStr ''1'') \<and>
   eval_df parse_fragment (coded_df (VStr ''1'')) = coded_df (VInt 1) \<and>
   eval_df parse_fragment (eval_df parse_fragment (coded_df (VStr [CHR 0x27, CHR ''1'', CHR 0x27]))) \<noteq>
     eval_df parse_fragment (coded_df (VStr [CHR 0x27, CHR ''1'', CHR 0x27]))"
proof -
  have a: "eval_df parse_fragment (coded_df (VStr [CHR 0x27, CHR ''1'', CHR 0x27])) =
             coded_df (VStr ''1'')"
    by (simp add: eval_coded parse_quoted)
  have b: "eval_df parse_fragment (coded_df (VStr ''1'')) = coded_df (VInt 1)"
    by (simp add: eval_coded parse_one)
  have c: "coded_df (VInt 1) \<noteq> coded_df (VStr ''1'')"
    by (simp add: coded_df_def)
  show ?thesis unfolding a b using c by simp
qed

end
